theory Spec2Isabelle
  imports Main "HOL-Library.Word"
begin

unbundle bit_operations_syntax

section \<open>Machine model\<close>

text \<open>
  The driver runs on a 64-bit little-endian target: \<open>void *\<close>, \<open>size_t\<close> and
  \<open>phys_addr_t\<close> are 64-bit words, \<open>unsigned\<close> is a 32-bit word.  Shared memory is a
  map from addresses to bytes; the \<open>__le16\<close> and \<open>__le32\<close> fields of the shared
  structures are decoded from it byte by byte.  Address arithmetic wraps modulo \<open>2^64\<close>, as
  the compiled code does.
\<close>

type_synonym u8 = "8 word"
type_synonym u16 = "16 word"
type_synonym u32 = "32 word"
type_synonym u64 = "64 word"
type_synonym addr = "64 word"
type_synonym memory = "addr \<Rightarrow> u8"

definition read_le16 :: "memory \<Rightarrow> addr \<Rightarrow> u16" where
  "read_le16 m a = ucast (m a) OR push_bit 8 (ucast (m (a + 1)))"

definition read_le32 :: "memory \<Rightarrow> addr \<Rightarrow> u32" where
  "read_le32 m a = ucast (m a) OR push_bit 8 (ucast (m (a + 1)))
      OR push_bit 16 (ucast (m (a + 2))) OR push_bit 24 (ucast (m (a + 3)))"

definition write_le16 :: "memory \<Rightarrow> addr \<Rightarrow> u16 \<Rightarrow> memory" where
  "write_le16 m a v = m(a := ucast v, a + 1 := ucast (drop_bit 8 v))"

definition write_le32 :: "memory \<Rightarrow> addr \<Rightarrow> u32 \<Rightarrow> memory" where
  "write_le32 m a v = m(a := ucast v, a + 1 := ucast (drop_bit 8 v),
      a + 2 := ucast (drop_bit 16 v), a + 3 := ucast (drop_bit 24 v))"

text \<open>\<open>le32_add_cpu(var, val)\<close>: \<open>*var = cpu_to_le32(le32_to_cpu(*var) + val)\<close>, in 32 bits.\<close>

definition le32_add_cpu :: "memory \<Rightarrow> addr \<Rightarrow> u32 \<Rightarrow> memory" where
  "le32_add_cpu m var val = write_le32 m var (read_le32 m var + val)"

text \<open>\<open>memcmp\<close> of a four-byte magic against a constant: the four bytes at the address.\<close>

definition magic_at :: "memory \<Rightarrow> addr \<Rightarrow> u8 list" where
  "magic_at m a = [m a, m (a + 1), m (a + 2), m (a + 3)]"

text \<open>
  Modelled from the spec: the \<open>ALIGN(x, a)\<close> macro, whose definition is outside the sources
  at hand; the spec calls it \<open>align_up\<close>.  It is the usual mask computation
  \<open>(x + (a - 1)) & ~(a - 1)\<close> in the type of \<open>x\<close>, here \<open>size_t\<close>.
\<close>

definition ALIGN :: "u64 \<Rightarrow> u64 \<Rightarrow> u64" where
  "ALIGN x a = (x + (a - 1)) AND NOT (a - 1)"

datatype errno = EINVAL | EEXIST | ENOSPC | ENOMEM | ENOENT | ENXIO | EPROBE_DEFER | ENODEV

section \<open>Constants and structure layouts\<close>

definition SMEM_MASTER_SBL_VERSION_INDEX :: u64 where "SMEM_MASTER_SBL_VERSION_INDEX = 7"
definition SMEM_GLOBAL_HEAP_VERSION :: u32 where "SMEM_GLOBAL_HEAP_VERSION = 11"
definition SMEM_GLOBAL_PART_VERSION :: u32 where "SMEM_GLOBAL_PART_VERSION = 12"
definition SMEM_ITEM_LAST_FIXED :: u32 where "SMEM_ITEM_LAST_FIXED = 8"
definition SMEM_ITEM_COUNT :: u32 where "SMEM_ITEM_COUNT = 512"
definition SMEM_HOST_APPS :: u16 where "SMEM_HOST_APPS = 0"
definition SMEM_GLOBAL_HOST :: u16 where "SMEM_GLOBAL_HOST = 0xfffe"
definition SMEM_HOST_COUNT :: nat where "SMEM_HOST_COUNT = 20"
definition AUX_BASE_MASK :: u32 where "AUX_BASE_MASK = 0xfffffffc"
definition SMEM_PRIVATE_CANARY :: u16 where "SMEM_PRIVATE_CANARY = 0xa5a5"
definition SMEM_PTABLE_MAGIC :: "u8 list" where "SMEM_PTABLE_MAGIC = [0x24, 0x54, 0x4f, 0x43]"
definition SMEM_PART_MAGIC :: "u8 list" where "SMEM_PART_MAGIC = [0x24, 0x50, 0x52, 0x54]"
definition SMEM_INFO_MAGIC :: "u8 list" where "SMEM_INFO_MAGIC = [0x53, 0x49, 0x49, 0x49]"
definition SZ_4K :: u64 where "SZ_4K = 0x1000"
definition FDT_ADDR_T_NONE :: u64 where "FDT_ADDR_T_NONE = - 1"

text \<open>
  \<open>struct smem_global_entry\<close> (16 bytes): \<open>allocated\<close> at 0, \<open>offset\<close> at 4, \<open>size\<close> at 8,
  \<open>aux_base\<close> at 12.
\<close>

definition global_entry_allocated :: "memory \<Rightarrow> addr \<Rightarrow> u32" where
  "global_entry_allocated m e = read_le32 m e"
definition global_entry_offset :: "memory \<Rightarrow> addr \<Rightarrow> u32" where
  "global_entry_offset m e = read_le32 m (e + 4)"
definition global_entry_size :: "memory \<Rightarrow> addr \<Rightarrow> u32" where
  "global_entry_size m e = read_le32 m (e + 8)"
definition global_entry_aux_base :: "memory \<Rightarrow> addr \<Rightarrow> u32" where
  "global_entry_aux_base m e = read_le32 m (e + 12)"

text \<open>
  \<open>struct smem_header\<close>: \<open>proc_comm[4]\<close> at 0 (64 bytes), \<open>version[32]\<close> at 64,
  \<open>initialized\<close> at 192, \<open>free_offset\<close> at 196, \<open>available\<close> at 200, \<open>reserved\<close> at 204,
  \<open>toc[]\<close> at 208.
\<close>

definition header_version :: "memory \<Rightarrow> addr \<Rightarrow> u64 \<Rightarrow> u32" where
  "header_version m h i = read_le32 m (h + 64 + 4 * i)"
definition header_initialized :: "memory \<Rightarrow> addr \<Rightarrow> u32" where
  "header_initialized m h = read_le32 m (h + 192)"
definition header_free_offset :: "memory \<Rightarrow> addr \<Rightarrow> u32" where
  "header_free_offset m h = read_le32 m (h + 196)"
definition header_available :: "memory \<Rightarrow> addr \<Rightarrow> u32" where
  "header_available m h = read_le32 m (h + 200)"
definition header_reserved :: "memory \<Rightarrow> addr \<Rightarrow> u32" where
  "header_reserved m h = read_le32 m (h + 204)"
definition header_toc :: "addr \<Rightarrow> u32 \<Rightarrow> addr" where
  "header_toc h item = h + 208 + 16 * ucast item"

text \<open>
  \<open>struct smem_ptable_entry\<close> (48 bytes): \<open>offset\<close> at 0, \<open>size\<close> at 4, \<open>flags\<close> at 8,
  \<open>host0\<close> at 12, \<open>host1\<close> at 14, \<open>cacheline\<close> at 16.
  \<open>struct smem_ptable\<close>: \<open>magic\<close> at 0, \<open>version\<close> at 4, \<open>num_entries\<close> at 8,
  \<open>entry[]\<close> at 32.
  \<open>struct smem_info\<close>: \<open>magic\<close> at 0, \<open>num_items\<close> at 16.
\<close>

definition ptable_entry_offset :: "memory \<Rightarrow> addr \<Rightarrow> u32" where
  "ptable_entry_offset m e = read_le32 m e"
definition ptable_entry_size :: "memory \<Rightarrow> addr \<Rightarrow> u32" where
  "ptable_entry_size m e = read_le32 m (e + 4)"
definition ptable_entry_host0 :: "memory \<Rightarrow> addr \<Rightarrow> u16" where
  "ptable_entry_host0 m e = read_le16 m (e + 12)"
definition ptable_entry_host1 :: "memory \<Rightarrow> addr \<Rightarrow> u16" where
  "ptable_entry_host1 m e = read_le16 m (e + 14)"
definition ptable_entry_cacheline :: "memory \<Rightarrow> addr \<Rightarrow> u32" where
  "ptable_entry_cacheline m e = read_le32 m (e + 16)"

definition ptable_version :: "memory \<Rightarrow> addr \<Rightarrow> u32" where
  "ptable_version m p = read_le32 m (p + 4)"
definition ptable_num_entries :: "memory \<Rightarrow> addr \<Rightarrow> u32" where
  "ptable_num_entries m p = read_le32 m (p + 8)"
definition ptable_entry :: "addr \<Rightarrow> u64 \<Rightarrow> addr" where
  "ptable_entry p i = p + 32 + 48 * i"

definition info_num_items :: "memory \<Rightarrow> addr \<Rightarrow> u16" where
  "info_num_items m i = read_le16 m (i + 16)"

text \<open>
  \<open>struct smem_partition_header\<close> (32 bytes): \<open>magic\<close> at 0, \<open>host0\<close> at 4, \<open>host1\<close> at 6,
  \<open>size\<close> at 8, \<open>offset_free_uncached\<close> at 12, \<open>offset_free_cached\<close> at 16.
\<close>

definition phdr_host0 :: "memory \<Rightarrow> addr \<Rightarrow> u16" where
  "phdr_host0 m p = read_le16 m (p + 4)"
definition phdr_host1 :: "memory \<Rightarrow> addr \<Rightarrow> u16" where
  "phdr_host1 m p = read_le16 m (p + 6)"
definition phdr_size :: "memory \<Rightarrow> addr \<Rightarrow> u32" where
  "phdr_size m p = read_le32 m (p + 8)"
definition phdr_offset_free_uncached :: "memory \<Rightarrow> addr \<Rightarrow> u32" where
  "phdr_offset_free_uncached m p = read_le32 m (p + 12)"
definition phdr_offset_free_cached :: "memory \<Rightarrow> addr \<Rightarrow> u32" where
  "phdr_offset_free_cached m p = read_le32 m (p + 16)"

text \<open>
  \<open>struct smem_private_entry\<close> (16 bytes): \<open>canary\<close> at 0, \<open>item\<close> at 2, \<open>size\<close> at 4,
  \<open>padding_data\<close> at 8, \<open>padding_hdr\<close> at 10, \<open>reserved\<close> at 12.
\<close>

definition entry_canary :: "memory \<Rightarrow> addr \<Rightarrow> u16" where
  "entry_canary m e = read_le16 m e"
definition entry_item :: "memory \<Rightarrow> addr \<Rightarrow> u16" where
  "entry_item m e = read_le16 m (e + 2)"
definition entry_size :: "memory \<Rightarrow> addr \<Rightarrow> u32" where
  "entry_size m e = read_le32 m (e + 4)"
definition entry_padding_data :: "memory \<Rightarrow> addr \<Rightarrow> u16" where
  "entry_padding_data m e = read_le16 m (e + 8)"
definition entry_padding_hdr :: "memory \<Rightarrow> addr \<Rightarrow> u16" where
  "entry_padding_hdr m e = read_le16 m (e + 10)"

record smem_partition =
  part_virt_base :: addr
  part_phys_base :: u64
  part_cacheline :: u64
  part_size :: u64

record smem_region =
  region_aux_base :: u64
  region_virt_base :: addr
  region_size :: u64

record qcom_smem =
  item_count :: u32
  ptable :: addr
  global_partition :: smem_partition
  partitions :: "smem_partition list"
  num_regions :: u32
  regions :: "smem_region list"

section \<open>Walking a partition\<close>

definition phdr_to_last_uncached_entry :: "memory \<Rightarrow> addr \<Rightarrow> addr" where
  "phdr_to_last_uncached_entry m phdr = phdr + ucast (phdr_offset_free_uncached m phdr)"

definition phdr_to_first_cached_entry :: "memory \<Rightarrow> addr \<Rightarrow> u64 \<Rightarrow> addr" where
  "phdr_to_first_cached_entry m phdr cacheline =
     phdr + ucast (phdr_size m phdr) - ALIGN 16 cacheline"

definition phdr_to_last_cached_entry :: "memory \<Rightarrow> addr \<Rightarrow> addr" where
  "phdr_to_last_cached_entry m phdr = phdr + ucast (phdr_offset_free_cached m phdr)"

definition phdr_to_first_uncached_entry :: "addr \<Rightarrow> addr" where
  "phdr_to_first_uncached_entry phdr = phdr + 32"

definition uncached_entry_next :: "memory \<Rightarrow> addr \<Rightarrow> addr" where
  "uncached_entry_next m e = e + 16 + ucast (entry_padding_hdr m e) + ucast (entry_size m e)"

definition cached_entry_next :: "memory \<Rightarrow> addr \<Rightarrow> u64 \<Rightarrow> addr" where
  "cached_entry_next m e cacheline = e - ucast (entry_size m e) - ALIGN 16 cacheline"

definition uncached_entry_to_item :: "memory \<Rightarrow> addr \<Rightarrow> addr" where
  "uncached_entry_to_item m e = e + 16 + ucast (entry_padding_hdr m e)"

definition cached_entry_to_item :: "memory \<Rightarrow> addr \<Rightarrow> addr" where
  "cached_entry_to_item m e = e - ucast (entry_size m e)"

section \<open>Allocation in a partition\<close>

text \<open>
  The scan of \<open>qcom_smem_alloc_private\<close>: \<open>Inl\<close> is a return from inside the loop,
  \<open>Inr hdr\<close> the pointer the loop ends at.  Nothing in the code bounds the number of
  iterations, so the result is optional: \<open>None\<close> is a scan that never ends.
\<close>

partial_function (option) alloc_private_loop ::
  "memory \<Rightarrow> addr \<Rightarrow> addr \<Rightarrow> u32 \<Rightarrow> (errno + addr) option" where
  "alloc_private_loop m hdr end item =
     (if hdr < end then
        if entry_canary m hdr \<noteq> SMEM_PRIVATE_CANARY then Some (Inl EINVAL)
        else if ucast (entry_item m hdr) = item then Some (Inl EEXIST)
        else alloc_private_loop m (uncached_entry_next m hdr) end item
      else Some (Inr hdr))"

declare alloc_private_loop.simps [code]

text \<open>
  The statements that commit a new entry, in program order (the five field stores, the write
  barrier, the cursor update), and what each does to memory.
\<close>

datatype alloc_stmt =
  Set_canary | Set_item | Set_size | Set_padding_data | Set_padding_hdr | Wmb | Add_free_uncached

fun alloc_stmt_exec :: "addr \<Rightarrow> addr \<Rightarrow> u32 \<Rightarrow> u64 \<Rightarrow> memory \<Rightarrow> alloc_stmt \<Rightarrow> memory" where
  "alloc_stmt_exec phdr hdr item sz m Set_canary = write_le16 m hdr SMEM_PRIVATE_CANARY"
| "alloc_stmt_exec phdr hdr item sz m Set_item = write_le16 m (hdr + 2) (ucast item)"
| "alloc_stmt_exec phdr hdr item sz m Set_size = write_le32 m (hdr + 4) (ucast (ALIGN sz 8))"
| "alloc_stmt_exec phdr hdr item sz m Set_padding_data =
     write_le16 m (hdr + 8) (ucast ((ucast (entry_size m hdr) :: u64) - sz))"
| "alloc_stmt_exec phdr hdr item sz m Set_padding_hdr = write_le16 m (hdr + 10) 0"
| "alloc_stmt_exec phdr hdr item sz m Wmb = m"
| "alloc_stmt_exec phdr hdr item sz m Add_free_uncached =
     le32_add_cpu m (phdr + 12) (ucast (16 + ALIGN sz 8))"

definition alloc_private_commit :: "alloc_stmt list" where
  "alloc_private_commit =
     [Set_canary, Set_item, Set_size, Set_padding_data, Set_padding_hdr, Wmb, Add_free_uncached]"

definition qcom_smem_alloc_private ::
  "smem_partition \<Rightarrow> u32 \<Rightarrow> u64 \<Rightarrow> memory \<Rightarrow> ((errno + unit) \<times> memory) option" where
  "qcom_smem_alloc_private part item sz m =
     (let phdr = part_virt_base part;
          p_end = phdr + part_size part;
          hdr = phdr_to_first_uncached_entry phdr;
          end = phdr_to_last_uncached_entry m phdr;
          cached = phdr_to_last_cached_entry m phdr
      in if end > p_end \<or> cached > p_end then Some (Inl EINVAL, m)
         else (case alloc_private_loop m hdr end item of
           None \<Rightarrow> None
         | Some (Inl e) \<Rightarrow> Some (Inl e, m)
         | Some (Inr hdr) \<Rightarrow>
             (if hdr > p_end then Some (Inl EINVAL, m)
              else (let alloc_size = 16 + ALIGN sz 8
               in if hdr + alloc_size > cached then Some (Inl ENOSPC, m)
                  else Some (Inr (),
                    foldl (alloc_stmt_exec phdr hdr item sz) m alloc_private_commit)))))"

section \<open>Lookup in a partition\<close>

text \<open>
  What both lists do with a matching entry; \<open>want_size\<close> is \<open>size != NULL\<close>.  The result of a
  lookup is the item pointer and, when asked for, the value stored to \<open>*size\<close>.
\<close>

type_synonym get_result = "errno + addr \<times> u64 option"

definition entry_found_size :: "memory \<Rightarrow> smem_partition \<Rightarrow> addr \<Rightarrow> bool \<Rightarrow> errno + u64 option" where
  "entry_found_size m part e want_size =
     (if want_size then
        (let e_size = entry_size m e;
             padding_data = (ucast (entry_padding_data m e) :: u32)
         in if ucast e_size > part_size part \<or> padding_data > e_size then Inl EINVAL
            else Inr (Some (ucast (e_size - padding_data))))
      else Inr None)"

definition uncached_entry_found :: "memory \<Rightarrow> smem_partition \<Rightarrow> addr \<Rightarrow> bool \<Rightarrow> get_result" where
  "uncached_entry_found m part e want_size =
     (case entry_found_size m part e want_size of
        Inl err \<Rightarrow> Inl err
      | Inr sz \<Rightarrow>
          (let item_ptr = uncached_entry_to_item m e
           in if item_ptr > part_virt_base part + part_size part then Inl EINVAL
              else Inr (item_ptr, sz)))"

definition cached_entry_found :: "memory \<Rightarrow> smem_partition \<Rightarrow> addr \<Rightarrow> bool \<Rightarrow> get_result" where
  "cached_entry_found m part e want_size =
     (case entry_found_size m part e want_size of
        Inl err \<Rightarrow> Inl err
      | Inr sz \<Rightarrow>
          (let item_ptr = cached_entry_to_item m e
           in if item_ptr < part_virt_base part then Inl EINVAL
              else Inr (item_ptr, sz)))"

partial_function (option) get_private_uncached_loop ::
  "memory \<Rightarrow> smem_partition \<Rightarrow> bool \<Rightarrow> addr \<Rightarrow> addr \<Rightarrow> u32 \<Rightarrow> (get_result + addr) option" where
  "get_private_uncached_loop m part want_size e end item =
     (if e < end then
        if entry_canary m e \<noteq> SMEM_PRIVATE_CANARY then Some (Inl (Inl EINVAL))
        else if ucast (entry_item m e) = item
          then Some (Inl (uncached_entry_found m part e want_size))
        else get_private_uncached_loop m part want_size (uncached_entry_next m e) end item
      else Some (Inr e))"

declare get_private_uncached_loop.simps [code]

partial_function (option) get_private_cached_loop ::
  "memory \<Rightarrow> smem_partition \<Rightarrow> bool \<Rightarrow> addr \<Rightarrow> addr \<Rightarrow> u32 \<Rightarrow> (get_result + addr) option" where
  "get_private_cached_loop m part want_size e end item =
     (if e > end then
        if entry_canary m e \<noteq> SMEM_PRIVATE_CANARY then Some (Inl (Inl EINVAL))
        else if ucast (entry_item m e) = item
          then Some (Inl (cached_entry_found m part e want_size))
        else get_private_cached_loop m part want_size
               (cached_entry_next m e (part_cacheline part)) end item
      else Some (Inr e))"

declare get_private_cached_loop.simps [code]

definition qcom_smem_get_private ::
  "smem_partition \<Rightarrow> u32 \<Rightarrow> bool \<Rightarrow> memory \<Rightarrow> get_result option" where
  "qcom_smem_get_private part item want_size m =
     (let phdr = part_virt_base part;
          p_end = phdr + part_size part;
          e = phdr_to_first_uncached_entry phdr;
          end = phdr_to_last_uncached_entry m phdr
      in (case get_private_uncached_loop m part want_size e end item of
           None \<Rightarrow> None
         | Some (Inl r) \<Rightarrow> Some r
         | Some (Inr e) \<Rightarrow>
             (if e > p_end then Some (Inl EINVAL)
              else (let e = phdr_to_first_cached_entry m phdr (part_cacheline part);
                      end = phdr_to_last_cached_entry m phdr
               in if e < phdr \<or> end > p_end then Some (Inl EINVAL)
                  else (case get_private_cached_loop m part want_size e end item of
                    None \<Rightarrow> None
                  | Some (Inl r) \<Rightarrow> Some r
                  | Some (Inr e) \<Rightarrow>
                      (if e < phdr then Some (Inl EINVAL) else Some (Inl ENOENT)))))))"

section \<open>The legacy global heap\<close>

definition qcom_smem_alloc_global ::
  "qcom_smem \<Rightarrow> u32 \<Rightarrow> u64 \<Rightarrow> memory \<Rightarrow> (errno + unit) \<times> memory" where
  "qcom_smem_alloc_global smem item sz m =
     (let header = region_virt_base (regions smem ! 0);
          entry = header_toc header item
      in if global_entry_allocated m entry \<noteq> 0 then (Inl EEXIST, m)
         else (let sz' = ALIGN sz 8
           in if sz' > ucast (header_available m header) then (Inl ENOMEM, m)
              else (let m1 = write_le32 m (entry + 4) (header_free_offset m header);
                        m2 = write_le32 m1 (entry + 8) (ucast sz');
                        m3 = write_le32 m2 entry 1;
                        m4 = le32_add_cpu m3 (header + 196) (ucast sz');
                        m5 = le32_add_cpu m4 (header + 200) (ucast (- sz'))
                    in (Inr (), m5))))"

text \<open>The loop of \<open>qcom_smem_get_global\<close> over the regions, in order.\<close>

fun get_global_regions ::
  "memory \<Rightarrow> addr \<Rightarrow> u32 \<Rightarrow> bool \<Rightarrow> smem_region list \<Rightarrow> get_result" where
  "get_global_regions m entry aux_base want_size [] = Inl ENOENT"
| "get_global_regions m entry aux_base want_size (region # rs) =
     (if (ucast (region_aux_base region) :: u32) = aux_base \<or> aux_base = 0 then
        (let e_size = global_entry_size m entry;
             entry_offset = (ucast (global_entry_offset m entry) :: u64)
         in if ucast e_size + entry_offset > region_size region then Inl EINVAL
            else Inr (region_virt_base region + entry_offset,
                      if want_size then Some (ucast e_size) else None))
      else get_global_regions m entry aux_base want_size rs)"

definition qcom_smem_get_global :: "qcom_smem \<Rightarrow> u32 \<Rightarrow> bool \<Rightarrow> memory \<Rightarrow> get_result" where
  "qcom_smem_get_global smem item want_size m =
     (let header = region_virt_base (regions smem ! 0);
          entry = header_toc header item
      in if global_entry_allocated m entry = 0 then Inl ENXIO
         else (let aux_base = global_entry_aux_base m entry AND AUX_BASE_MASK
           in get_global_regions m entry aux_base want_size
                (take (unat (num_regions smem)) (regions smem))))"

section \<open>The exported operations\<close>

text \<open>
  \<open>__smem\<close>, the one handle of the driver, is passed in: \<open>None\<close> before a successful
  \<open>qcom_smem_init\<close>.
\<close>

definition qcom_smem_is_available :: "qcom_smem option \<Rightarrow> bool" where
  "qcom_smem_is_available smem_opt = (smem_opt \<noteq> None)"

definition qcom_smem_alloc ::
  "qcom_smem option \<Rightarrow> u32 \<Rightarrow> u32 \<Rightarrow> u64 \<Rightarrow> memory \<Rightarrow> ((errno + unit) \<times> memory) option" where
  "qcom_smem_alloc smem_opt host item sz m =
     (case smem_opt of
        None \<Rightarrow> Some (Inl EPROBE_DEFER, m)
      | Some smem \<Rightarrow>
          (if item < SMEM_ITEM_LAST_FIXED then Some (Inl EINVAL, m)
           else if item \<ge> item_count smem then Some (Inl EINVAL, m)
           else if unat host < SMEM_HOST_COUNT
                   \<and> part_virt_base (partitions smem ! unat host) \<noteq> 0
             then qcom_smem_alloc_private (partitions smem ! unat host) item sz m
           else if part_virt_base (global_partition smem) \<noteq> 0
             then qcom_smem_alloc_private (global_partition smem) item sz m
           else Some (qcom_smem_alloc_global smem item sz m)))"

definition qcom_smem_get ::
  "qcom_smem option \<Rightarrow> u32 \<Rightarrow> u32 \<Rightarrow> bool \<Rightarrow> memory \<Rightarrow> get_result option" where
  "qcom_smem_get smem_opt host item want_size m =
     (case smem_opt of
        None \<Rightarrow> Some (Inl EPROBE_DEFER)
      | Some smem \<Rightarrow>
          (if item \<ge> item_count smem then Some (Inl EINVAL)
           else if unat host < SMEM_HOST_COUNT
                   \<and> part_virt_base (partitions smem ! unat host) \<noteq> 0
             then qcom_smem_get_private (partitions smem ! unat host) item want_size m
           else if part_virt_base (global_partition smem) \<noteq> 0
             then qcom_smem_get_private (global_partition smem) item want_size m
           else Some (qcom_smem_get_global smem item want_size m)))"

section \<open>Discovery of the partitions\<close>

definition qcom_smem_get_sbl_version :: "qcom_smem \<Rightarrow> memory \<Rightarrow> u32" where
  "qcom_smem_get_sbl_version smem m =
     header_version m (region_virt_base (regions smem ! 0)) SMEM_MASTER_SBL_VERSION_INDEX"

definition qcom_smem_get_ptable :: "qcom_smem \<Rightarrow> memory \<Rightarrow> errno + addr" where
  "qcom_smem_get_ptable smem m =
     (if magic_at m (ptable smem) \<noteq> SMEM_PTABLE_MAGIC then Inl ENOENT
      else if ptable_version m (ptable smem) \<noteq> 1 then Inl EINVAL
      else Inr (ptable smem))"

definition qcom_smem_get_item_count :: "qcom_smem \<Rightarrow> memory \<Rightarrow> u32" where
  "qcom_smem_get_item_count smem m =
     (case qcom_smem_get_ptable smem m of
        Inl err \<Rightarrow> SMEM_ITEM_COUNT
      | Inr pt \<Rightarrow>
          (if pt = 0 then SMEM_ITEM_COUNT
           else (let info = ptable_entry pt (ucast (ptable_num_entries m pt))
             in if magic_at m info \<noteq> SMEM_INFO_MAGIC then SMEM_ITEM_COUNT
                else ucast (info_num_items m info))))"

text \<open>
  Validation of a partition header against its table entry; \<open>None\<close> is the null pointer the
  function returns for a header it rejects.
\<close>

definition qcom_smem_partition_header ::
  "qcom_smem \<Rightarrow> addr \<Rightarrow> u16 \<Rightarrow> u16 \<Rightarrow> memory \<Rightarrow> addr option" where
  "qcom_smem_partition_header smem entry host0 host1 m =
     (let header = region_aux_base (regions smem ! 0) + ucast (ptable_entry_offset m entry)
      in if header = 0 then None
         else if magic_at m header \<noteq> SMEM_PART_MAGIC then None
         else if host0 \<noteq> phdr_host0 m header then None
         else if host1 \<noteq> phdr_host1 m header then None
         else (let sz = phdr_size m header
           in if sz \<noteq> ptable_entry_size m entry then None
              else if phdr_offset_free_uncached m header > sz then None
              else Some header))"

text \<open>
  The search loop of \<open>qcom_smem_set_global_partition\<close>: the first entry, from index \<open>i\<close>
  on, with a nonzero offset and size and both hosts \<open>SMEM_GLOBAL_HOST\<close>; \<open>None\<close> when the
  loop ends with \<open>found\<close> still false.
\<close>

function find_global_entry :: "memory \<Rightarrow> addr \<Rightarrow> nat \<Rightarrow> nat \<Rightarrow> addr option" where
  "find_global_entry m pt n i =
     (if i < n then
        (let entry = ptable_entry pt (of_nat i)
         in if ptable_entry_offset m entry = 0 then find_global_entry m pt n (Suc i)
            else if ptable_entry_size m entry = 0 then find_global_entry m pt n (Suc i)
            else if ptable_entry_host0 m entry \<noteq> SMEM_GLOBAL_HOST
              then find_global_entry m pt n (Suc i)
            else if ptable_entry_host1 m entry = SMEM_GLOBAL_HOST then Some entry
            else find_global_entry m pt n (Suc i))
      else None)"
  by pat_completeness auto
termination
  by (relation "measure (\<lambda>(m, pt, n, i). n - i)") auto

declare find_global_entry.simps [simp del]

definition qcom_smem_set_global_partition :: "qcom_smem \<Rightarrow> memory \<Rightarrow> errno + qcom_smem" where
  "qcom_smem_set_global_partition smem m =
     (if part_virt_base (global_partition smem) \<noteq> 0 then Inl EINVAL
      else (case qcom_smem_get_ptable smem m of
        Inl err \<Rightarrow> Inl err
      | Inr pt \<Rightarrow>
          (case find_global_entry m pt (unat (ptable_num_entries m pt)) 0 of
             None \<Rightarrow> Inl EINVAL
           | Some entry \<Rightarrow>
               (case qcom_smem_partition_header smem entry SMEM_GLOBAL_HOST SMEM_GLOBAL_HOST m of
                  None \<Rightarrow> Inl EINVAL
                | Some header \<Rightarrow>
                    Inr (smem\<lparr>global_partition :=
                      \<lparr>part_virt_base = header,
                       part_phys_base =
                         region_aux_base (regions smem ! 0) + ucast (ptable_entry_offset m entry),
                       part_cacheline = ucast (ptable_entry_cacheline m entry),
                       part_size = ucast (ptable_entry_size m entry)\<rparr>\<rparr>)))))"

text \<open>The loop of \<open>qcom_smem_enumerate_partitions\<close>, from index \<open>i\<close> on.\<close>

function enumerate_partitions_loop ::
  "qcom_smem \<Rightarrow> memory \<Rightarrow> u16 \<Rightarrow> addr \<Rightarrow> nat \<Rightarrow> nat \<Rightarrow> errno + qcom_smem" where
  "enumerate_partitions_loop smem m local_host pt n i =
     (if i < n then
        (let entry = ptable_entry pt (of_nat i);
             host0 = ptable_entry_host0 m entry;
             host1 = ptable_entry_host1 m entry
         in if ptable_entry_offset m entry = 0
              then enumerate_partitions_loop smem m local_host pt n (Suc i)
            else if ptable_entry_size m entry = 0
              then enumerate_partitions_loop smem m local_host pt n (Suc i)
            else if host0 \<noteq> local_host \<and> host1 \<noteq> local_host
              then enumerate_partitions_loop smem m local_host pt n (Suc i)
            else (let remote_host = (if host0 = local_host then host1 else host0)
              in if unat remote_host \<ge> SMEM_HOST_COUNT then Inl EINVAL
                 else if part_virt_base (partitions smem ! unat remote_host) \<noteq> 0 then Inl EINVAL
                 else (case qcom_smem_partition_header smem entry host0 host1 m of
                    None \<Rightarrow> Inl EINVAL
                  | Some header \<Rightarrow>
                      enumerate_partitions_loop
                        (smem\<lparr>partitions := (partitions smem)[unat remote_host :=
                           \<lparr>part_virt_base = header,
                            part_phys_base = region_aux_base (regions smem ! 0)
                              + ucast (ptable_entry_offset m entry),
                            part_cacheline = ucast (ptable_entry_cacheline m entry),
                            part_size = ucast (ptable_entry_size m entry)\<rparr>]\<rparr>)
                        m local_host pt n (Suc i))))
      else Inr smem)"
  by pat_completeness auto
termination
  by (relation "measure (\<lambda>(smem, m, local_host, pt, n, i). n - i)") auto

declare enumerate_partitions_loop.simps [simp del]

definition qcom_smem_enumerate_partitions ::
  "qcom_smem \<Rightarrow> u16 \<Rightarrow> memory \<Rightarrow> errno + qcom_smem" where
  "qcom_smem_enumerate_partitions smem local_host m =
     (case qcom_smem_get_ptable smem m of
        Inl err \<Rightarrow> Inl err
      | Inr pt \<Rightarrow>
          enumerate_partitions_loop smem m local_host pt (unat (ptable_num_entries m pt)) 0)"

section \<open>Initialisation\<close>

text \<open>
  \<open>qcom_smem_map_toc\<close> on region 0: the header is mapped at the region's base, the
  partition table 4 KiB before its end, with the table's address computed in 32 bits.
\<close>

definition qcom_smem_map_toc :: "qcom_smem \<Rightarrow> errno + qcom_smem" where
  "qcom_smem_map_toc smem =
     (let region = regions smem ! 0;
          region' = region\<lparr>region_virt_base := region_aux_base region\<rparr>;
          ptable_start = (ucast (region_aux_base region + region_size region - SZ_4K) :: u32);
          smem' = smem\<lparr>regions := (regions smem)[0 := region'], ptable := ucast ptable_start\<rparr>
      in if region_virt_base region' = 0 \<or> ptable smem' = 0 then Inl ENOMEM else Inr smem')"

definition qcom_smem_map_global :: "qcom_smem \<Rightarrow> u32 \<Rightarrow> qcom_smem" where
  "qcom_smem_map_global smem sz =
     (let region = regions smem ! 0
      in smem\<lparr>regions := (regions smem)[0 :=
           region\<lparr>region_size := ucast sz, region_virt_base := region_aux_base region\<rparr>]\<rparr>)"

text \<open>
  What the device tree and the allocator give \<open>qcom_smem_init\<close>: whether a
  \<open>qcom,smem\<close> node exists, whether \<open>kzalloc\<close> succeeds, and the address and size of the
  memory node.
\<close>

record init_env =
  node_valid :: bool
  kzalloc_ok :: bool
  mem_addr :: u64
  mem_size :: u64

definition smem_kzalloc :: qcom_smem where
  "smem_kzalloc =
     \<lparr>item_count = 0, ptable = 0,
      global_partition =
        \<lparr>part_virt_base = 0, part_phys_base = 0, part_cacheline = 0, part_size = 0\<rparr>,
      partitions = replicate SMEM_HOST_COUNT
        \<lparr>part_virt_base = 0, part_phys_base = 0, part_cacheline = 0, part_size = 0\<rparr>,
      num_regions = 0,
      regions = [\<lparr>region_aux_base = 0, region_virt_base = 0, region_size = 0\<rparr>]\<rparr>"

text \<open>
  The version switch of \<open>qcom_smem_init\<close>, on the major number \<open>version >> 16\<close>; \<open>sz\<close>
  is \<open>available + free_offset\<close>.
\<close>

definition init_select_mode :: "qcom_smem \<Rightarrow> u32 \<Rightarrow> u32 \<Rightarrow> memory \<Rightarrow> errno + qcom_smem" where
  "init_select_mode smem version sz m =
     (if drop_bit 16 version = SMEM_GLOBAL_PART_VERSION then
        (case qcom_smem_set_global_partition smem m of
           Inl err \<Rightarrow> Inl err
         | Inr smem' \<Rightarrow> Inr (smem'\<lparr>item_count := qcom_smem_get_item_count smem' m\<rparr>))
      else if drop_bit 16 version = SMEM_GLOBAL_HEAP_VERSION then
        Inr ((qcom_smem_map_global smem sz)\<lparr>item_count := SMEM_ITEM_COUNT\<rparr>)
      else Inl EINVAL)"

text \<open>
  \<open>qcom_smem_init\<close>: the result and the new value of \<open>__smem\<close>, which is assigned only on
  success.
\<close>

definition qcom_smem_init ::
  "init_env \<Rightarrow> qcom_smem option \<Rightarrow> memory \<Rightarrow> (errno + unit) \<times> qcom_smem option" where
  "qcom_smem_init env smem_old m =
     (if \<not> node_valid env then (Inl ENODEV, smem_old)
      else if \<not> kzalloc_ok env then (Inl ENOMEM, smem_old)
      else (let smem0 = smem_kzalloc\<lparr>num_regions := 1,
                  regions := [\<lparr>region_aux_base = mem_addr env, region_virt_base = 0,
                              region_size = 0\<rparr>]\<rparr>
        in if mem_addr env = FDT_ADDR_T_NONE then (Inl EINVAL, smem_old)
           else (let smem1 = smem0\<lparr>regions := (regions smem0)[0 :=
                       (regions smem0 ! 0)\<lparr>region_size := mem_size env\<rparr>]\<rparr>
             in (case qcom_smem_map_toc smem1 of
                   Inl err \<Rightarrow> (Inl err, smem_old)
                 | Inr smem2 \<Rightarrow>
                     (let header = region_virt_base (regions smem2 ! 0)
                      in if header_initialized m header \<noteq> 1 \<or> header_reserved m header \<noteq> 0
                           then (Inl EINVAL, smem_old)
                         else (let sz = header_available m header + header_free_offset m header;
                                   version = qcom_smem_get_sbl_version smem2 m
                           in (case init_select_mode smem2 version sz m of
                                 Inl err \<Rightarrow> (Inl err, smem_old)
                               | Inr smem3 \<Rightarrow>
                                   (case qcom_smem_enumerate_partitions smem3 SMEM_HOST_APPS m of
                                      Inl err \<Rightarrow>
                                        (if err \<noteq> ENOENT then (Inl err, smem_old)
                                         else (Inr (), Some smem3))
                                    | Inr smem4 \<Rightarrow> (Inr (), Some smem4)))))))))"

text \<open>
  What the loops above test of a table entry, and what \<open>qcom_smem_partition_header\<close> tests
  of the header an entry points to: an entry in use that names the local host, an entry in use
  for the global partition, and a header with the magic, the two hosts and the size of its
  entry whose uncached cursor lies within that size.
\<close>

definition entry_for_host :: "memory \<Rightarrow> u16 \<Rightarrow> addr \<Rightarrow> bool" where
  "entry_for_host m local_host entry \<longleftrightarrow>
     ptable_entry_offset m entry \<noteq> 0 \<and> ptable_entry_size m entry \<noteq> 0
     \<and> (ptable_entry_host0 m entry = local_host \<or> ptable_entry_host1 m entry = local_host)"

definition header_matches :: "memory \<Rightarrow> addr \<Rightarrow> addr \<Rightarrow> u16 \<Rightarrow> u16 \<Rightarrow> bool" where
  "header_matches m header entry host0 host1 \<longleftrightarrow>
     magic_at m header = SMEM_PART_MAGIC
     \<and> phdr_host0 m header = host0 \<and> phdr_host1 m header = host1
     \<and> phdr_size m header = ptable_entry_size m entry
     \<and> phdr_offset_free_uncached m header \<le> phdr_size m header"

definition is_global_entry :: "memory \<Rightarrow> addr \<Rightarrow> bool" where
  "is_global_entry m entry \<longleftrightarrow>
     ptable_entry_offset m entry \<noteq> 0 \<and> ptable_entry_size m entry \<noteq> 0
     \<and> ptable_entry_host0 m entry = SMEM_GLOBAL_HOST
     \<and> ptable_entry_host1 m entry = SMEM_GLOBAL_HOST"

text \<open>
  The path of \<open>qcom_smem_init\<close> to its version switch: the address of the partition table,
  the major number the switch tests, the conditions under which no earlier return is taken,
  and the handle as it stands at the switch.
\<close>

definition init_table :: "init_env \<Rightarrow> addr" where
  "init_table env = ucast (ucast (mem_addr env + mem_size env - SZ_4K) :: u32)"

definition init_major :: "init_env \<Rightarrow> memory \<Rightarrow> u32" where
  "init_major env m =
     drop_bit 16 (header_version m (mem_addr env) SMEM_MASTER_SBL_VERSION_INDEX)"

definition init_reaches_switch :: "init_env \<Rightarrow> memory \<Rightarrow> bool" where
  "init_reaches_switch env m \<longleftrightarrow>
     node_valid env \<and> kzalloc_ok env \<and> mem_addr env \<noteq> FDT_ADDR_T_NONE
     \<and> mem_addr env \<noteq> 0 \<and> init_table env \<noteq> 0
     \<and> header_initialized m (mem_addr env) = 1 \<and> header_reserved m (mem_addr env) = 0"

definition init_handle :: "init_env \<Rightarrow> qcom_smem" where
  "init_handle env =
     \<lparr>item_count = 0, ptable = init_table env,
      global_partition =
        \<lparr>part_virt_base = 0, part_phys_base = 0, part_cacheline = 0, part_size = 0\<rparr>,
      partitions = replicate SMEM_HOST_COUNT
        \<lparr>part_virt_base = 0, part_phys_base = 0, part_cacheline = 0, part_size = 0\<rparr>,
      num_regions = 1,
      regions = [\<lparr>region_aux_base = mem_addr env, region_virt_base = mem_addr env,
                  region_size = mem_size env\<rparr>]\<rparr>"

section \<open>Entry lists and example states\<close>

text \<open>
  \<open>uncached_path m item end e0 e\<close>: a scan for \<open>item\<close> that starts at \<open>e0\<close> arrives at
  \<open>e\<close>, every entry before \<open>e\<close> lying below \<open>end\<close>, carrying the canary and another item.
  \<open>cached_path\<close> is the same for the scan of the cached list, which runs downwards.
\<close>

inductive uncached_path :: "memory \<Rightarrow> u32 \<Rightarrow> addr \<Rightarrow> addr \<Rightarrow> addr \<Rightarrow> bool" where
  uncached_path_here: "uncached_path m item end e e"
| uncached_path_next:
    "e0 < end \<Longrightarrow> entry_canary m e0 = SMEM_PRIVATE_CANARY \<Longrightarrow> ucast (entry_item m e0) \<noteq> item
      \<Longrightarrow> uncached_path m item end (uncached_entry_next m e0) e
      \<Longrightarrow> uncached_path m item end e0 e"

inductive cached_path :: "memory \<Rightarrow> u32 \<Rightarrow> u64 \<Rightarrow> addr \<Rightarrow> addr \<Rightarrow> addr \<Rightarrow> bool" where
  cached_path_here: "cached_path m item cacheline end e e"
| cached_path_next:
    "e0 > end \<Longrightarrow> entry_canary m e0 = SMEM_PRIVATE_CANARY \<Longrightarrow> ucast (entry_item m e0) \<noteq> item
      \<Longrightarrow> cached_path m item cacheline end (cached_entry_next m e0 cacheline) e
      \<Longrightarrow> cached_path m item cacheline end e0 e"

text \<open>
  A well-formed uncached list: entries with the canary, each starting where the one before
  ends, the last one ending exactly at the cursor \<open>end\<close>.
\<close>

inductive uncached_list :: "memory \<Rightarrow> addr \<Rightarrow> addr \<Rightarrow> bool" where
  uncached_list_end: "uncached_list m end end"
| uncached_list_entry:
    "e < end \<Longrightarrow> entry_canary m e = SMEM_PRIVATE_CANARY
      \<Longrightarrow> uncached_list m (uncached_entry_next m e) end \<Longrightarrow> uncached_list m e end"

text \<open>
  A partition mapped so that no address computed from its 32-bit offsets wraps: it ends at
  least 8 GiB below the top of the address space.
\<close>

definition partition_mapped :: "smem_partition \<Rightarrow> bool" where
  "partition_mapped part \<longleftrightarrow>
     unat (part_virt_base part) + unat (part_size part) + 2 ^ 33 \<le> 2 ^ 64"

text \<open>Two memories agree on the addresses from \<open>lo\<close> up to, not including, \<open>hi\<close>.\<close>

definition same_on :: "memory \<Rightarrow> memory \<Rightarrow> nat \<Rightarrow> nat \<Rightarrow> bool" where
  "same_on m m' lo hi \<longleftrightarrow> (\<forall>a. lo \<le> unat a \<and> unat a < hi \<longrightarrow> m' a = m a)"

text \<open>
  The partition an owner's items live in, as both \<open>qcom_smem_alloc\<close> and
  \<open>qcom_smem_get\<close> choose it: the host's private partition, else the global partition,
  else none (the legacy heap of region 0).  A valid heap for a request: at most \<open>2^16\<close>
  items (item numbers are stored in 16 bits); a partition that is mapped and whose uncached
  list is well formed; in legacy mode a region that is mapped, whose free area lies within
  it, and a directory slot for the item that names the default region.
\<close>

definition owning_partition :: "qcom_smem \<Rightarrow> u32 \<Rightarrow> smem_partition option" where
  "owning_partition smem host =
     (if unat host < SMEM_HOST_COUNT \<and> part_virt_base (partitions smem ! unat host) \<noteq> 0
        then Some (partitions smem ! unat host)
      else if part_virt_base (global_partition smem) \<noteq> 0 then Some (global_partition smem)
      else None)"

definition partition_valid :: "smem_partition \<Rightarrow> memory \<Rightarrow> bool" where
  "partition_valid part m \<longleftrightarrow>
     partition_mapped part
     \<and> uncached_list m (phdr_to_first_uncached_entry (part_virt_base part))
          (phdr_to_last_uncached_entry m (part_virt_base part))"

definition legacy_valid :: "qcom_smem \<Rightarrow> u32 \<Rightarrow> memory \<Rightarrow> bool" where
  "legacy_valid smem item m \<longleftrightarrow>
     regions smem \<noteq> [] \<and> num_regions smem \<noteq> 0
     \<and> unat (region_virt_base (regions smem ! 0)) + unat (region_size (regions smem ! 0)) + 2 ^ 33
          \<le> 2 ^ 64
     \<and> unat (header_free_offset m (region_virt_base (regions smem ! 0)))
          + unat (header_available m (region_virt_base (regions smem ! 0)))
          \<le> unat (region_size (regions smem ! 0))
     \<and> global_entry_aux_base m (header_toc (region_virt_base (regions smem ! 0)) item)
          AND AUX_BASE_MASK = 0"

definition heap_valid :: "qcom_smem \<Rightarrow> u32 \<Rightarrow> u32 \<Rightarrow> memory \<Rightarrow> bool" where
  "heap_valid smem host item m \<longleftrightarrow>
     unat (item_count smem) \<le> 2 ^ 16
     \<and> (case owning_partition smem host of
          Some part \<Rightarrow> partition_valid part m
        | None \<Rightarrow> legacy_valid smem item m)"

definition owner_base :: "qcom_smem \<Rightarrow> u32 \<Rightarrow> addr" where
  "owner_base smem host =
     (case owning_partition smem host of
        Some part \<Rightarrow> part_virt_base part
      | None \<Rightarrow> region_virt_base (regions smem ! 0))"

definition owner_size :: "qcom_smem \<Rightarrow> u32 \<Rightarrow> u64" where
  "owner_size smem host =
     (case owning_partition smem host of
        Some part \<Rightarrow> part_size part
      | None \<Rightarrow> region_size (regions smem ! 0))"

text \<open>
  An item that is there to be looked up.  In a partition: the scan of the uncached list arrives
  at an entry below the cursor that carries the canary and the item, whose size and data
  padding pass the checks of the lookup and whose data starts within the partition; or the
  scan of the uncached list ends at \<open>e1\<close> without a match, the cached list lies within the
  partition, and its scan arrives at such an entry.  In legacy mode: the item's directory slot
  is marked allocated, names region 0, and its offset and size lie within that region.
\<close>

definition entry_well_formed :: "memory \<Rightarrow> smem_partition \<Rightarrow> u32 \<Rightarrow> addr \<Rightarrow> bool" where
  "entry_well_formed m part item e \<longleftrightarrow>
     entry_canary m e = SMEM_PRIVATE_CANARY \<and> ucast (entry_item m e) = item
     \<and> ucast (entry_size m e) \<le> part_size part
     \<and> ucast (entry_padding_data m e) \<le> entry_size m e"

definition uncached_item :: "memory \<Rightarrow> smem_partition \<Rightarrow> u32 \<Rightarrow> addr \<Rightarrow> bool" where
  "uncached_item m part item e \<longleftrightarrow>
     uncached_path m item (phdr_to_last_uncached_entry m (part_virt_base part))
       (phdr_to_first_uncached_entry (part_virt_base part)) e
     \<and> e < phdr_to_last_uncached_entry m (part_virt_base part)
     \<and> entry_well_formed m part item e
     \<and> uncached_entry_to_item m e \<le> part_virt_base part + part_size part"

definition cached_item :: "memory \<Rightarrow> smem_partition \<Rightarrow> u32 \<Rightarrow> addr \<Rightarrow> addr \<Rightarrow> bool" where
  "cached_item m part item e1 e \<longleftrightarrow>
     uncached_path m item (phdr_to_last_uncached_entry m (part_virt_base part))
       (phdr_to_first_uncached_entry (part_virt_base part)) e1
     \<and> phdr_to_last_uncached_entry m (part_virt_base part) \<le> e1
     \<and> e1 \<le> part_virt_base part + part_size part
     \<and> part_virt_base part
          \<le> phdr_to_first_cached_entry m (part_virt_base part) (part_cacheline part)
     \<and> phdr_to_last_cached_entry m (part_virt_base part)
          \<le> part_virt_base part + part_size part
     \<and> cached_path m item (part_cacheline part)
          (phdr_to_last_cached_entry m (part_virt_base part))
          (phdr_to_first_cached_entry m (part_virt_base part) (part_cacheline part)) e
     \<and> phdr_to_last_cached_entry m (part_virt_base part) < e
     \<and> entry_well_formed m part item e
     \<and> part_virt_base part \<le> cached_entry_to_item m e"

definition legacy_item :: "memory \<Rightarrow> qcom_smem \<Rightarrow> u32 \<Rightarrow> bool" where
  "legacy_item m smem item \<longleftrightarrow>
     (let entry = header_toc (region_virt_base (regions smem ! 0)) item;
          aux_base = global_entry_aux_base m entry AND AUX_BASE_MASK
      in global_entry_allocated m entry \<noteq> 0
         \<and> regions smem \<noteq> [] \<and> num_regions smem \<noteq> 0
         \<and> ((ucast (region_aux_base (regions smem ! 0)) :: u32) = aux_base \<or> aux_base = 0)
         \<and> (ucast (global_entry_size m entry) :: u64) + ucast (global_entry_offset m entry)
              \<le> region_size (regions smem ! 0))"

text \<open>
  A partition of 4 KiB at address \<open>0x1000\<close>, and memories for it: one whose second uncached
  entry has lost its canary, one with an empty uncached list and a cached entry without
  canary.
\<close>

definition example_part :: smem_partition where
  "example_part = \<lparr>part_virt_base = 0x1000, part_phys_base = 0x1000, part_cacheline = 64,
     part_size = 0x1000\<rparr>"

definition bad_uncached_mem :: memory where
  "bad_uncached_mem =
     write_le32 (write_le16 (write_le16
       (write_le32 (write_le32 (write_le32 (\<lambda>_. 0) 0x1008 0x1000) 0x100c 0x60) 0x1010 0x1000)
       0x1020 0xa5a5) 0x1022 9) 0x1024 16"

definition bad_cached_mem :: memory where
  "bad_cached_mem =
     write_le32 (write_le32 (write_le32 (\<lambda>_. 0) 0x1008 0x1000) 0x100c 0x20) 0x1010 0xf00"

text \<open>
  A handle in legacy mode (one region of 64 KiB at \<open>0x1000\<close>, no partition), a header with
  nothing available, and a header whose reserved item 3 is allocated.
\<close>

definition zero_partition :: smem_partition where
  "zero_partition =
     \<lparr>part_virt_base = 0, part_phys_base = 0, part_cacheline = 0, part_size = 0\<rparr>"

definition legacy_smem :: qcom_smem where
  "legacy_smem = \<lparr>item_count = 512, ptable = 0xf000, global_partition = zero_partition,
     partitions = replicate 20 zero_partition, num_regions = 1,
     regions = [\<lparr>region_aux_base = 0x1000, region_virt_base = 0x1000, region_size = 0x10000\<rparr>]\<rparr>"

definition legacy_full_mem :: memory where
  "legacy_full_mem = write_le32 (write_le32 (\<lambda>_. 0) 0x10c4 0x10000) 0x10c8 0"

definition legacy_item3_mem :: memory where
  "legacy_item3_mem =
     write_le32 (write_le32 (write_le32 (\<lambda>_. 0) 0x1100 1) 0x1104 0x3000) 0x1108 64"

text \<open>
  The example partition with both lists empty, and a handle whose host 0 owns it.
\<close>

definition empty_mem :: memory where
  "empty_mem = write_le32 (write_le32 (write_le32 (\<lambda>_. 0) 0x1008 0x1000) 0x100c 0x20) 0x1010 0x1000"

definition private_smem :: qcom_smem where
  "private_smem = \<lparr>item_count = 512, ptable = 0xf000, global_partition = zero_partition,
     partitions = example_part # replicate 19 zero_partition, num_regions = 1,
     regions = [\<lparr>region_aux_base = 0x1000, region_virt_base = 0x1000, region_size = 0x10000\<rparr>]\<rparr>"

text \<open>
  The example partition with one uncached entry for item 402 whose size field, \<open>0x1000\<close>,
  reaches beyond the end of the partition.
\<close>

definition oob_mem :: memory where
  "oob_mem =
     write_le32 (write_le16 (write_le16
       (write_le32 (write_le32 (write_le32 (\<lambda>_. 0) 0x1008 0x1000) 0x100c 0x30) 0x1010 0x1000)
       0x1020 0xa5a5) 0x1022 402) 0x1024 0x1000"

text \<open>
  The example partition with an uncached entry for item 402 followed by one for the reserved
  item 3 (16 bytes, 4 of them padding), and with an empty uncached list and a cached entry for
  item 3 (64 bytes).  A legacy header whose slot for item 402 has offset \<open>0xf030\<close> and size
  \<open>0x1000\<close>, reaching beyond the 64 KiB of the region.
\<close>

definition reserved_uncached_mem :: memory where
  "reserved_uncached_mem =
     write_le16 (write_le32 (write_le16 (write_le16
       (write_le32 (write_le16 (write_le16
         (write_le32 (write_le32 (write_le32 (\<lambda>_. 0) 0x1008 0x1000) 0x100c 0x60) 0x1010 0x1000)
         0x1020 0xa5a5) 0x1022 402) 0x1024 16)
       0x1040 0xa5a5) 0x1042 3) 0x1044 16) 0x1048 4"

definition reserved_cached_mem :: memory where
  "reserved_cached_mem =
     write_le32 (write_le16 (write_le16
       (write_le32 (write_le32 (write_le32 (\<lambda>_. 0) 0x1008 0x1000) 0x100c 0x20) 0x1010 0xf80)
       0x1fc0 0xa5a5) 0x1fc2 3) 0x1fc4 64"

definition legacy_oob_mem :: memory where
  "legacy_oob_mem =
     write_le32 (write_le32 (write_le32 (\<lambda>_. 0) 0x29f0 1) 0x29f4 0xf030) 0x29f8 0x1000"

text \<open>
  The record of a new entry as \<open>qcom_smem_alloc_private\<close> writes it, and the memory
  after the first \<open>k\<close> statements of its commit sequence.
\<close>

definition record_complete :: "memory \<Rightarrow> addr \<Rightarrow> u32 \<Rightarrow> u64 \<Rightarrow> bool" where
  "record_complete m hdr item sz \<longleftrightarrow>
     entry_canary m hdr = SMEM_PRIVATE_CANARY
     \<and> entry_item m hdr = ucast item
     \<and> entry_size m hdr = ucast (ALIGN sz 8)
     \<and> entry_padding_data m hdr = ucast ((ucast (ucast (ALIGN sz 8) :: u32) :: u64) - sz)
     \<and> entry_padding_hdr m hdr = 0"

definition alloc_private_after :: "smem_partition \<Rightarrow> u32 \<Rightarrow> u64 \<Rightarrow> memory \<Rightarrow> nat \<Rightarrow> memory" where
  "alloc_private_after part item sz m k =
     foldl (alloc_stmt_exec (part_virt_base part)
              (phdr_to_last_uncached_entry m (part_virt_base part)) item sz)
       m (take k alloc_private_commit)"

text \<open>
  A region of 64 KiB at \<open>0x10000\<close> whose partition table, at \<open>0x1f000\<close>, has two entries:
  the global partition at offset \<open>0x2000\<close> and a partition of hosts 0 and 1 at offset
  \<open>0x3000\<close>.  \<open>table_mem\<close> holds the table alone, \<open>parts_mem\<close> also the two partition
  headers; \<open>sbl_header\<close> marks the region initialised with a given version word, and
  \<open>boot_mem\<close> is the complete region at version 12.
\<close>

definition table_smem :: qcom_smem where
  "table_smem = \<lparr>item_count = 0, ptable = 0x1f000, global_partition = zero_partition,
     partitions = replicate 20 zero_partition, num_regions = 1,
     regions = [\<lparr>region_aux_base = 0x10000, region_virt_base = 0x10000, region_size = 0x10000\<rparr>]\<rparr>"

definition table_mem :: memory where
  "table_mem =
     write_le16 (write_le32 (write_le32
       (write_le16 (write_le16 (write_le32 (write_le32
         (write_le32 (write_le32 (write_le32 (\<lambda>_. 0) 0x1f000 0x434f5424) 0x1f004 1) 0x1f008 2)
         0x1f020 0x2000) 0x1f024 0x1000) 0x1f02c 0xfffe) 0x1f02e 0xfffe)
       0x1f050 0x3000) 0x1f054 0x1000) 0x1f05e 1"

definition with_partition_header :: "memory \<Rightarrow> addr \<Rightarrow> u16 \<Rightarrow> u16 \<Rightarrow> memory" where
  "with_partition_header m h host0 host1 =
     write_le32 (write_le32 (write_le32 (write_le16 (write_le16 (write_le32 m h 0x54525024)
       (h + 4) host0) (h + 6) host1) (h + 8) 0x1000) (h + 12) 0x20) (h + 16) 0x1000"

definition parts_mem :: memory where
  "parts_mem = with_partition_header (with_partition_header table_mem 0x12000 0xfffe 0xfffe)
     0x13000 0 1"

definition boot_env :: init_env where
  "boot_env = \<lparr>node_valid = True, kzalloc_ok = True, mem_addr = 0x10000, mem_size = 0x10000\<rparr>"

definition sbl_header :: "u32 \<Rightarrow> memory \<Rightarrow> memory" where
  "sbl_header version m = write_le32 (write_le32 m 0x100c0 1) 0x1005c version"

definition boot_mem :: memory where "boot_mem = sbl_header 0xc0000 parts_mem"

definition global_part :: smem_partition where
  "global_part = \<lparr>part_virt_base = 0x12000, part_phys_base = 0x12000, part_cacheline = 0,
     part_size = 0x1000\<rparr>"

section \<open>Evaluation on concrete states\<close>

lemmas field_defs = global_entry_allocated_def global_entry_offset_def global_entry_size_def
  global_entry_aux_base_def header_toc_def header_available_def header_free_offset_def
  read_le32_def write_le32_def read_le16_def write_le16_def le32_add_cpu_def

lemmas entry_defs = entry_canary_def entry_item_def entry_size_def entry_padding_data_def
  entry_padding_hdr_def phdr_offset_free_uncached_def phdr_offset_free_cached_def phdr_size_def
  phdr_to_first_uncached_entry_def phdr_to_last_uncached_entry_def phdr_to_last_cached_entry_def
  phdr_to_first_cached_entry_def uncached_entry_next_def cached_entry_next_def
  uncached_entry_to_item_def cached_entry_to_item_def SMEM_PRIVATE_CANARY_def

lemmas table_defs = ptable_entry_offset_def ptable_entry_size_def ptable_entry_host0_def
  ptable_entry_host1_def ptable_entry_cacheline_def ptable_version_def ptable_num_entries_def
  ptable_entry_def phdr_host0_def phdr_host1_def phdr_size_def phdr_offset_free_uncached_def
  magic_at_def SMEM_PART_MAGIC_def SMEM_PTABLE_MAGIC_def SMEM_GLOBAL_HOST_def SMEM_HOST_APPS_def
  read_le32_def write_le32_def read_le16_def write_le16_def

lemmas init_defs = init_reaches_switch_def init_major_def init_table_def boot_env_def
  sbl_header_def header_version_def header_initialized_def header_reserved_def
  header_available_def header_free_offset_def SMEM_MASTER_SBL_VERSION_INDEX_def
  SMEM_GLOBAL_PART_VERSION_def SMEM_GLOBAL_HEAP_VERSION_def FDT_ADDR_T_NONE_def SZ_4K_def

lemmas boot_mem_defs = boot_mem_def sbl_header_def parts_mem_def table_mem_def
  with_partition_header_def

section \<open>Words, bytes and frames\<close>

lemma unat_ucast_32_64: "unat (ucast (x :: u32) :: u64) = unat x"
proof -
  have "unat x < 2 ^ 32" using unsigned_less [of x, where 'a = nat] by simp
  then have "unat x < 2 ^ 64" by simp
  then show ?thesis by (simp add: unsigned_ucast_eq take_bit_nat_eq_self)
qed

lemma unat_ucast_16_64: "unat (ucast (x :: u16) :: u64) = unat x"
proof -
  have "unat x < 2 ^ 16" using unsigned_less [of x, where 'a = nat] by simp
  then have "unat x < 2 ^ 64" by simp
  then show ?thesis by (simp add: unsigned_ucast_eq take_bit_nat_eq_self)
qed

lemma unat_ucast_16_32: "unat (ucast (x :: u16) :: u32) = unat x"
proof -
  have "unat x < 2 ^ 16" using unsigned_less [of x, where 'a = nat] by simp
  then have "unat x < 2 ^ 32" by simp
  then show ?thesis by (simp add: unsigned_ucast_eq take_bit_nat_eq_self)
qed

lemma unat_u32_bound: "unat (x :: u32) < 4294967296"
  using unsigned_less [of x, where 'a = nat] by simp

lemma unat_u16_bound: "unat (x :: u16) < 65536"
  using unsigned_less [of x, where 'a = nat] by simp

lemma unat_u64_bound: "unat (x :: u64) < 18446744073709551616"
  using unsigned_less [of x, where 'a = nat] by simp

lemma and_not_mask_3: "(y :: u64) AND NOT (mask 3) = push_bit 3 (drop_bit 3 y)"
  by (rule bit_word_eqI) (auto simp add: bit_simps)

lemma ALIGN_8: "ALIGN sz 8 = push_bit 3 (drop_bit 3 (sz + 7))"
proof -
  have m: "(8 :: u64) - 1 = mask 3" by (simp add: mask_eq_exp_minus_1)
  have "ALIGN sz 8 = (sz + mask 3) AND NOT (mask 3)"
    unfolding ALIGN_def by (simp only: m)
  also have "\<dots> = push_bit 3 (drop_bit 3 (sz + mask 3))"
    by (rule and_not_mask_3)
  finally show ?thesis by (simp add: mask_eq_exp_minus_1)
qed

lemma unat_ALIGN_8: "unat sz + 7 < 2 ^ 64 \<Longrightarrow> unat (ALIGN sz 8) = ((unat sz + 7) div 8) * 8"
proof -
  assume a: "unat sz + 7 < 2 ^ 64"
  then have e: "unat (sz + 7) = unat sz + 7" by (simp add: unat_word_ariths)
  have "((unat sz + 7) div 8) * 8 \<le> unat sz + 7" by simp
  with a have b: "((unat sz + 7) div 8) * 8 < 2 ^ 64" by linarith
  have "unat (ALIGN sz 8) = take_bit 64 (push_bit 3 (unat (drop_bit 3 (sz + 7))))"
    by (simp only: ALIGN_8 unsigned_push_bit_eq) simp
  also have "unat (drop_bit 3 (sz + 7)) = drop_bit 3 (unat sz + 7)"
    by (simp only: unat_drop_bit_eq e)
  also have "push_bit 3 (drop_bit 3 (unat sz + 7)) = ((unat sz + 7) div 8) * 8"
    by (simp add: drop_bit_eq_div push_bit_eq_mult)
  finally show ?thesis using b by (simp only: take_bit_nat_eq_self)
qed

lemma addr_off_neq:
  "unat (b :: u64) + k < 2 ^ 64 \<Longrightarrow> unat a \<noteq> unat b + k \<Longrightarrow> a \<noteq> b + of_nat k"
proof
  assume b: "unat b + k < 2 ^ 64" and o: "unat a \<noteq> unat b + k" and e: "a = b + of_nat k"
  have "unat (b + of_nat k) = unat b + k" using b by (simp add: unat_word_ariths unat_of_nat)
  with e o show False by simp
qed

lemma foldl_frame:
  "(\<And>m s. s \<in> set l \<Longrightarrow> f m s a = m a) \<Longrightarrow> foldl f m l a = m a"
  by (induction l arbitrary: m) simp_all

lemma stmt_frame_record:
  assumes "unat h + 16 \<le> 2 ^ 64" and "unat a < unat h \<or> unat h + 12 \<le> unat a"
    and "s \<noteq> Add_free_uncached"
  shows "alloc_stmt_exec phdr h item sz m s a = m a"
proof -
  have h: "\<And>k. k < 12 \<Longrightarrow> a \<noteq> h + of_nat k"
    using assms by (intro addr_off_neq) auto
  have 1: "a \<noteq> h" "a \<noteq> h + 1" "a \<noteq> h + 2" "a \<noteq> h + 3" "a \<noteq> h + 4" "a \<noteq> h + 5"
    "a \<noteq> h + 6" "a \<noteq> h + 7" "a \<noteq> h + 8" "a \<noteq> h + 9" "a \<noteq> h + 10" "a \<noteq> h + 11"
    using h [of 0] h [of 1] h [of 2] h [of 3] h [of 4] h [of 5] h [of 6] h [of 7] h [of 8]
      h [of 9] h [of 10] h [of 11] by simp_all
  note 3 = 1 [unfolded add.commute [of h]]
  show ?thesis
    using 1 3 assms(3) by (cases s) (simp_all add: write_le16_def write_le32_def)
qed

lemma stmt_frame:
  assumes "unat phdr + 32 \<le> unat h" and "unat h + 16 \<le> 2 ^ 64"
    and "unat a < unat phdr + 12 \<or> (unat phdr + 16 \<le> unat a \<and> unat a < unat h) \<or> unat h + 12 \<le> unat a"
  shows "alloc_stmt_exec phdr h item sz m s a = m a"
proof -
  have h: "\<And>k. k < 12 \<Longrightarrow> a \<noteq> h + of_nat k"
    using assms by (intro addr_off_neq) auto
  have p: "\<And>k. 12 \<le> k \<Longrightarrow> k < 16 \<Longrightarrow> a \<noteq> phdr + of_nat k"
    using assms by (intro addr_off_neq) auto
  have 1: "a \<noteq> h" "a \<noteq> h + 1" "a \<noteq> h + 2" "a \<noteq> h + 3" "a \<noteq> h + 4" "a \<noteq> h + 5"
    "a \<noteq> h + 6" "a \<noteq> h + 7" "a \<noteq> h + 8" "a \<noteq> h + 9" "a \<noteq> h + 10" "a \<noteq> h + 11"
    using h [of 0] h [of 1] h [of 2] h [of 3] h [of 4] h [of 5] h [of 6] h [of 7] h [of 8]
      h [of 9] h [of 10] h [of 11] by simp_all
  have 2: "a \<noteq> phdr + 12" "a \<noteq> phdr + 13" "a \<noteq> phdr + 14" "a \<noteq> phdr + 15"
    using p [of 12] p [of 13] p [of 14] p [of 15] by simp_all
  note 3 = 1 [unfolded add.commute [of h]] and 4 = 2 [unfolded add.commute [of phdr]]
  show ?thesis
    using 1 2 3 4 by (cases s) (simp_all add: write_le16_def write_le32_def le32_add_cpu_def)
qed

lemma commit_frame:
  assumes "unat phdr + 32 \<le> unat h" and "unat h + 16 \<le> 2 ^ 64"
    and "unat a < unat phdr + 12 \<or> (unat phdr + 16 \<le> unat a \<and> unat a < unat h) \<or> unat h + 12 \<le> unat a"
  shows "foldl (alloc_stmt_exec phdr h item sz) m l a = m a"
  by (rule foldl_frame) (rule stmt_frame [OF assms])

lemma unat_plus_nat:
  "unat (a :: u64) + n < 2 ^ 64 \<Longrightarrow> unat (a + of_nat n) = unat a + n"
  by (simp add: unat_word_ariths unat_of_nat)

lemma same_on_byte:
  "same_on m m' lo hi \<Longrightarrow> lo \<le> unat a + k \<Longrightarrow> unat a + k < hi \<Longrightarrow> hi \<le> 2 ^ 64
     \<Longrightarrow> m' (a + of_nat k) = m (a + of_nat k)"
  using unat_plus_nat [of a k] by (simp add: same_on_def)

lemma read_le16_same_on:
  assumes "same_on m m' lo hi" and "lo \<le> unat a" and "unat a + 2 \<le> hi" and "hi \<le> 2 ^ 64"
  shows "read_le16 m' a = read_le16 m a"
  using same_on_byte [OF assms(1), of a 0] same_on_byte [OF assms(1), of a 1] assms(2-4)
  by (simp add: read_le16_def)

lemma read_le32_same_on:
  assumes "same_on m m' lo hi" and "lo \<le> unat a" and "unat a + 4 \<le> hi" and "hi \<le> 2 ^ 64"
  shows "read_le32 m' a = read_le32 m a"
  using same_on_byte [OF assms(1), of a 0] same_on_byte [OF assms(1), of a 1]
    same_on_byte [OF assms(1), of a 2] same_on_byte [OF assms(1), of a 3] assms(2-4)
  by (simp add: read_le32_def)

lemma entry_same_on:
  assumes "same_on m m' lo hi" and "lo \<le> unat e" and "unat e + 16 \<le> hi" and "hi \<le> 2 ^ 64"
  shows "entry_canary m' e = entry_canary m e"
    and "entry_item m' e = entry_item m e"
    and "entry_size m' e = entry_size m e"
    and "entry_padding_data m' e = entry_padding_data m e"
    and "entry_padding_hdr m' e = entry_padding_hdr m e"
proof -
  have u: "unat (e + 2) = unat e + 2" "unat (e + 4) = unat e + 4" "unat (e + 8) = unat e + 8"
    "unat (e + 10) = unat e + 10"
    using assms(3,4) unat_plus_nat [of e 2] unat_plus_nat [of e 4] unat_plus_nat [of e 8]
      unat_plus_nat [of e 10] by simp_all
  show "entry_canary m' e = entry_canary m e"
    unfolding entry_canary_def using assms by (intro read_le16_same_on [OF assms(1)]) simp_all
  show "entry_item m' e = entry_item m e"
    unfolding entry_item_def using assms u by (intro read_le16_same_on [OF assms(1)]) simp_all
  show "entry_size m' e = entry_size m e"
    unfolding entry_size_def using assms u by (intro read_le32_same_on [OF assms(1)]) simp_all
  show "entry_padding_data m' e = entry_padding_data m e"
    unfolding entry_padding_data_def using assms u by (intro read_le16_same_on [OF assms(1)]) simp_all
  show "entry_padding_hdr m' e = entry_padding_hdr m e"
    unfolding entry_padding_hdr_def using assms u by (intro read_le16_same_on [OF assms(1)]) simp_all
qed

lemma le16_bytes:
  "(ucast (ucast v :: u8) :: u16) OR push_bit 8 (ucast (ucast (drop_bit 8 v) :: u8)) = v"
  by (rule bit_word_eqI) (auto simp add: bit_simps)

lemma le32_bytes:
  "(ucast (ucast v :: u8) :: u32) OR push_bit 8 (ucast (ucast (drop_bit 8 v) :: u8))
     OR push_bit 16 (ucast (ucast (drop_bit 16 v) :: u8))
     OR push_bit 24 (ucast (ucast (drop_bit 24 v) :: u8)) = v"
  apply (rule bit_word_eqI)
  subgoal for n
    apply (cases "n < 8"; cases "n < 16"; cases "n < 24")
           apply (auto simp add: bit_simps)
    done
  done

lemma read_write_le16 [simp]: "read_le16 (write_le16 m a v) a = v"
  by (simp add: read_le16_def write_le16_def le16_bytes)

lemma read_write_le32 [simp]: "read_le32 (write_le32 m a v) a = v"
  by (simp add: read_le32_def write_le32_def le32_bytes)

lemma record_written:
  fixes m phdr h item sz
  defines "m5 \<equiv> foldl (alloc_stmt_exec phdr h item sz) m
                   [Set_canary, Set_item, Set_size, Set_padding_data, Set_padding_hdr]"
  shows "entry_canary m5 h = SMEM_PRIVATE_CANARY"
    and "entry_item m5 h = ucast item"
    and "entry_size m5 h = ucast (ALIGN sz 8)"
    and "entry_padding_data m5 h = ucast ((ucast (ucast (ALIGN sz 8) :: u32) :: u64) - sz)"
    and "entry_padding_hdr m5 h = 0"
  unfolding m5_def
  by (simp_all add: entry_canary_def entry_item_def entry_size_def entry_padding_data_def
        entry_padding_hdr_def read_le16_def read_le32_def write_le16_def write_le32_def
        le16_bytes le32_bytes)

lemma commit_split:
  "foldl (alloc_stmt_exec phdr h item sz) m alloc_private_commit =
     le32_add_cpu (foldl (alloc_stmt_exec phdr h item sz) m
        [Set_canary, Set_item, Set_size, Set_padding_data, Set_padding_hdr])
       (phdr + 12) (ucast (16 + ALIGN sz 8))"
  by (simp add: alloc_private_commit_def)

lemma write_le32_same_on_above:
  "unat p + 4 \<le> 2 ^ 64 \<Longrightarrow> same_on m (write_le32 m p v) (unat p + 4) hi"
proof -
  assume b: "unat p + 4 \<le> 2 ^ 64"
  have "\<And>a k. unat p + 4 \<le> unat a \<Longrightarrow> k < 4 \<Longrightarrow> a \<noteq> p + of_nat k"
    using b by (intro addr_off_neq) auto
  from this [of _ 0] this [of _ 1] this [of _ 2] this [of _ 3]
  show ?thesis by (auto simp add: same_on_def write_le32_def)
qed

lemma write_le32_same_on_below:
  "unat p + 4 \<le> 2 ^ 64 \<Longrightarrow> same_on m (write_le32 m p v) lo (unat p)"
proof -
  assume b: "unat p + 4 \<le> 2 ^ 64"
  have "\<And>a k. unat a < unat p \<Longrightarrow> k < 4 \<Longrightarrow> a \<noteq> p + of_nat k"
    using b by (intro addr_off_neq) auto
  from this [of _ 0] this [of _ 1] this [of _ 2] this [of _ 3]
  show ?thesis by (auto simp add: same_on_def write_le32_def)
qed

lemma same_on_mono:
  "same_on m m' lo hi \<Longrightarrow> lo \<le> lo' \<Longrightarrow> hi' \<le> hi \<Longrightarrow> same_on m m' lo' hi'"
  by (auto simp add: same_on_def)

lemma same_on_trans:
  "same_on m m' lo hi \<Longrightarrow> same_on m' m'' lo hi \<Longrightarrow> same_on m m'' lo hi"
  by (auto simp add: same_on_def)

lemma commit_effect:
  fixes m phdr h item sz
  defines "m' \<equiv> foldl (alloc_stmt_exec phdr h item sz) m alloc_private_commit"
  assumes H1: "unat phdr + 32 \<le> unat h" and H2: "unat h + 16 \<le> 2 ^ 64"
  shows "same_on m m' (unat phdr + 16) (unat h)"
    and "entry_canary m' h = SMEM_PRIVATE_CANARY"
    and "entry_item m' h = ucast item"
    and "entry_size m' h = ucast (ALIGN sz 8)"
    and "entry_padding_data m' h = ucast ((ucast (ucast (ALIGN sz 8) :: u32) :: u64) - sz)"
    and "entry_padding_hdr m' h = 0"
    and "phdr_offset_free_uncached m' phdr
           = phdr_offset_free_uncached m phdr + ucast (16 + ALIGN sz 8)"
    and "phdr_offset_free_cached m' phdr = phdr_offset_free_cached m phdr"
    and "phdr_size m' phdr = phdr_size m phdr"
proof -
  let ?m5 = "foldl (alloc_stmt_exec phdr h item sz) m
        [Set_canary, Set_item, Set_size, Set_padding_data, Set_padding_hdr]"
  have m': "m' = le32_add_cpu ?m5 (phdr + 12) (ucast (16 + ALIGN sz 8))"
    unfolding m'_def by (rule commit_split)
  have p12: "unat (phdr + 12) = unat phdr + 12"
    using H1 H2 unat_plus_nat [of phdr 12] by simp
  have p16: "unat (phdr + 16) = unat phdr + 16"
    using H1 H2 unat_plus_nat [of phdr 16] by simp
  have p8: "unat (phdr + 8) = unat phdr + 8"
    using H1 H2 unat_plus_nat [of phdr 8] by simp
  have all: "\<And>a. unat a < unat phdr + 12 \<or> (unat phdr + 16 \<le> unat a \<and> unat a < unat h)
      \<or> unat h + 12 \<le> unat a \<Longrightarrow> m' a = m a"
    unfolding m'_def by (rule commit_frame [OF H1 H2])
  show "same_on m m' (unat phdr + 16) (unat h)"
    using all by (simp add: same_on_def)
  have lo: "same_on m m' 0 (unat phdr + 12)"
    using all by (simp add: same_on_def)
  have mid: "same_on m m' (unat phdr + 16) (unat h)"
    using all by (simp add: same_on_def)
  have "same_on ?m5 (write_le32 ?m5 (phdr + 12) V) (unat (phdr + 12) + 4) (2 ^ 64)" for V
    by (rule write_le32_same_on_above) (use p12 H1 H2 in simp)
  then have rec: "same_on ?m5 m' (unat phdr + 16) (2 ^ 64)"
    unfolding m' le32_add_cpu_def p12 by (simp only: add.assoc) simp
  have below: "same_on m ?m5 0 (unat h)"
    unfolding same_on_def
  proof (intro allI impI)
    fix a :: addr assume "0 \<le> unat a \<and> unat a < unat h"
    then show "?m5 a = m a"
      by (intro foldl_frame stmt_frame_record [OF H2]) auto
  qed
  show "entry_canary m' h = SMEM_PRIVATE_CANARY"
    using entry_same_on(1) [OF rec, of h] H1 H2 record_written(1) [of phdr h item sz m] by simp
  show "entry_item m' h = ucast item"
    using entry_same_on(2) [OF rec, of h] H1 H2 record_written(2) [of phdr h item sz m] by simp
  show "entry_size m' h = ucast (ALIGN sz 8)"
    using entry_same_on(3) [OF rec, of h] H1 H2 record_written(3) [of phdr h item sz m] by simp
  show "entry_padding_data m' h = ucast ((ucast (ucast (ALIGN sz 8) :: u32) :: u64) - sz)"
    using entry_same_on(4) [OF rec, of h] H1 H2 record_written(4) [of phdr h item sz m] by simp
  show "entry_padding_hdr m' h = 0"
    using entry_same_on(5) [OF rec, of h] H1 H2 record_written(5) [of phdr h item sz m] by simp
  have "read_le32 ?m5 (phdr + 12) = read_le32 m (phdr + 12)"
    using H1 H2 p12 by (intro read_le32_same_on [OF below]) simp_all
  then show "phdr_offset_free_uncached m' phdr
           = phdr_offset_free_uncached m phdr + ucast (16 + ALIGN sz 8)"
    by (simp add: phdr_offset_free_uncached_def m' le32_add_cpu_def)
  show "phdr_offset_free_cached m' phdr = phdr_offset_free_cached m phdr"
    unfolding phdr_offset_free_cached_def
    using H1 H2 p16 by (intro read_le32_same_on [OF mid]) simp_all
  show "phdr_size m' phdr = phdr_size m phdr"
    unfolding phdr_size_def
    using H1 H2 p8 by (intro read_le32_same_on [OF lo]) simp_all
qed

section \<open>The scan after an allocation\<close>

lemma uncached_list_le: "uncached_list m e end \<Longrightarrow> e \<le> end"
  by (induction rule: uncached_list.induct) simp_all

lemma alloc_loop_ends_at_cursor:
  "uncached_list m e end \<Longrightarrow> alloc_private_loop m e end item = Some (Inr h) \<Longrightarrow> h = end"
proof (induction rule: uncached_list.induct)
  case (uncached_list_end m en)
  then show ?case by (simp add: alloc_private_loop.simps)
next
  case (uncached_list_entry e en m)
  from uncached_list_entry.prems uncached_list_entry.hyps(1,2)
  have "alloc_private_loop m (uncached_entry_next m e) en item = Some (Inr h)"
    by (subst (asm) alloc_private_loop.simps) (simp split: if_splits)
  then show ?case by (rule uncached_list_entry.IH)
qed

lemma unat_uncached_entry_next:
  assumes "unat e + 2 ^ 33 \<le> 2 ^ 64"
  shows "unat (uncached_entry_next m e)
           = unat e + 16 + unat (entry_padding_hdr m e) + unat (entry_size m e)"
proof -
  have a: "unat (entry_padding_hdr m e) < 65536" by (rule unat_u16_bound)
  have b: "unat (entry_size m e) < 4294967296" by (rule unat_u32_bound)
  show ?thesis
    using assms a b
    by (simp add: uncached_entry_next_def unat_word_ariths unat_ucast_16_64 unat_ucast_32_64)
qed

lemma scan_finds_new_entry:
  assumes "uncached_list m e end"
    and "alloc_private_loop m e end item = Some (Inr h)"
    and "same_on m m' lo (unat end)" and "lo \<le> unat e"
    and "unat end + 2 ^ 33 \<le> 2 ^ 64"
    and "end < end'"
    and "entry_canary m' end = SMEM_PRIVATE_CANARY"
    and "ucast (entry_item m' end) = item"
  shows "get_private_uncached_loop m' part w e end' item
           = Some (Inl (uncached_entry_found m' part end w))
         \<and> alloc_private_loop m' e end' item = Some (Inl EEXIST)"
  using assms
proof (induction rule: uncached_list.induct)
  case (uncached_list_end m en)
  then show ?case
    by (simp add: get_private_uncached_loop.simps [of m' _ _ "en"]
          alloc_private_loop.simps [of m' "en"])
next
  case (uncached_list_entry e en m)
  have lt: "unat e < unat en" using uncached_list_entry.hyps(1) by (simp add: word_less_nat_alt)
  have loop: "alloc_private_loop m (uncached_entry_next m e) en item = Some (Inr h)"
    and ne: "ucast (entry_item m e) \<noteq> item"
    using uncached_list_entry.prems(1) uncached_list_entry.hyps(1,2)
    by (subst (asm) alloc_private_loop.simps, simp split: if_splits)+
  have nx: "unat (uncached_entry_next m e)
           = unat e + 16 + unat (entry_padding_hdr m e) + unat (entry_size m e)"
    using lt uncached_list_entry.prems(4) by (intro unat_uncached_entry_next) simp
  have "uncached_entry_next m e \<le> en"
    using uncached_list_entry.hyps(3) by (rule uncached_list_le)
  then have fits: "unat e + 16 \<le> unat en"
    using nx by (simp add: word_le_nat_alt)
  have hi: "unat en \<le> 2 ^ 64" using uncached_list_entry.prems(4) by simp
  note same = entry_same_on [OF uncached_list_entry.prems(2) uncached_list_entry.prems(3) fits hi]
  have nx': "uncached_entry_next m' e = uncached_entry_next m e"
    by (simp add: uncached_entry_next_def same)
  have lo': "lo \<le> unat (uncached_entry_next m e)"
    using nx uncached_list_entry.prems(3) by simp
  have IH: "get_private_uncached_loop m' part w (uncached_entry_next m e) end' item
           = Some (Inl (uncached_entry_found m' part en w))
         \<and> alloc_private_loop m' (uncached_entry_next m e) end' item = Some (Inl EEXIST)"
    using loop uncached_list_entry.prems(2) lo' uncached_list_entry.prems(4-7)
    by (rule uncached_list_entry.IH)
  have lt': "e < end'" using uncached_list_entry.hyps(1) uncached_list_entry.prems(5) by simp
  show ?case
    using IH lt' ne uncached_list_entry.hyps(2)
    by (simp add: get_private_uncached_loop.simps [of m' _ _ e] alloc_private_loop.simps [of m' e]
          same nx')
qed

lemma unat_ucast_64_32: "unat (x :: u64) < 2 ^ 32 \<Longrightarrow> unat (ucast x :: u32) = unat x"
  by (simp add: unsigned_ucast_eq take_bit_nat_eq_self)

lemma unat_ucast_64_16: "unat (x :: u64) < 2 ^ 16 \<Longrightarrow> unat (ucast x :: u16) = unat x"
  by (simp add: unsigned_ucast_eq take_bit_nat_eq_self)

lemma unat_ucast_32_16: "unat (x :: u32) < 2 ^ 16 \<Longrightarrow> unat (ucast x :: u16) = unat x"
  by (simp add: unsigned_ucast_eq take_bit_nat_eq_self)

lemma ucast_ucast_64_32: "unat (x :: u64) < 2 ^ 32 \<Longrightarrow> (ucast (ucast x :: u32) :: u64) = x"
  by (simp add: word_unat_eq_iff unat_ucast_32_64 unat_ucast_64_32)

text \<open>Numbers about one allocation, all in nat.\<close>

lemma alloc_private_success_facts:
  assumes mapped: "partition_mapped part"
    and list: "uncached_list m (phdr_to_first_uncached_entry (part_virt_base part))
                 (phdr_to_last_uncached_entry m (part_virt_base part))"
    and sz: "unat sz < 2 ^ 32"
    and alloc: "qcom_smem_alloc_private part item sz m = Some (Inr (), m')"
    and phdr_def: "phdr = part_virt_base part"
    and h_def: "h = phdr_to_last_uncached_entry m phdr"
  shows "m' = foldl (alloc_stmt_exec phdr h item sz) m alloc_private_commit"
    and "alloc_private_loop m (phdr_to_first_uncached_entry phdr) h item = Some (Inr h)"
    and "unat h = unat phdr + unat (phdr_offset_free_uncached m phdr)"
    and "unat phdr + 32 \<le> unat h"
    and "unat h + 16 + unat (ALIGN sz 8) \<le> unat phdr + unat (phdr_offset_free_cached m phdr)"
    and "unat (phdr_offset_free_cached m phdr) \<le> unat (part_size part)"
proof -
  let ?first = "phdr_to_first_uncached_entry phdr"
  let ?cached = "phdr_to_last_cached_entry m phdr"
  let ?p_end = "phdr + part_size part"
  have map: "unat phdr + unat (part_size part) + 2 ^ 33 \<le> 2 ^ 64"
    using mapped by (simp add: partition_mapped_def phdr_def)
  have offb: "unat (phdr_offset_free_uncached m phdr) < 4294967296"
    and offcb: "unat (phdr_offset_free_cached m phdr) < 4294967296"
    by (rule unat_u32_bound)+
  have uh: "unat h = unat phdr + unat (phdr_offset_free_uncached m phdr)"
    using map offb
    by (simp add: h_def phdr_to_last_uncached_entry_def unat_word_ariths unat_ucast_32_64)
  have uc: "unat ?cached = unat phdr + unat (phdr_offset_free_cached m phdr)"
    using map offcb
    by (simp add: phdr_to_last_cached_entry_def unat_word_ariths unat_ucast_32_64)
  have upe: "unat ?p_end = unat phdr + unat (part_size part)"
    using map by (simp add: unat_word_ariths)
  have ufirst: "unat ?first = unat phdr + 32"
    using map by (simp add: phdr_to_first_uncached_entry_def unat_word_ariths)
  from alloc have chk: "\<not> (h > ?p_end \<or> ?cached > ?p_end)"
    by (auto simp add: qcom_smem_alloc_private_def Let_def phdr_def h_def split: if_splits)
  from alloc chk obtain h' where
    loop: "alloc_private_loop m ?first h item = Some (Inr h')"
    and rest: "\<not> h' > ?p_end" "\<not> h' + (16 + ALIGN sz 8) > ?cached"
      "m' = foldl (alloc_stmt_exec phdr h' item sz) m alloc_private_commit"
    by (auto simp add: qcom_smem_alloc_private_def Let_def phdr_def h_def
          split: if_splits option.splits sum.splits)
  have hh: "h' = h"
    using list loop unfolding phdr_def [symmetric] h_def [symmetric]
    by (rule alloc_loop_ends_at_cursor)
  show "m' = foldl (alloc_stmt_exec phdr h item sz) m alloc_private_commit"
    using rest(3) hh by simp
  show "alloc_private_loop m ?first h item = Some (Inr h)"
    using loop hh by simp
  show "unat h = unat phdr + unat (phdr_offset_free_uncached m phdr)" by (rule uh)
  have "?first \<le> h"
    using list unfolding phdr_def [symmetric] h_def [symmetric] by (rule uncached_list_le)
  then show "unat phdr + 32 \<le> unat h" using ufirst by (simp add: word_le_nat_alt)
  have hpe: "unat h \<le> unat phdr + unat (part_size part)"
    using chk upe by (simp add: word_le_nat_alt word_less_nat_alt not_less)
  have ua: "unat (ALIGN sz 8) = ((unat sz + 7) div 8) * 8"
    using sz by (intro unat_ALIGN_8) simp
  have "((unat sz + 7) div 8) * 8 \<le> unat sz + 7" by simp
  with ua sz have ab: "unat (ALIGN sz 8) < 2 ^ 32 + 8" by simp
  have u16a: "unat (16 + ALIGN sz 8) = 16 + unat (ALIGN sz 8)"
    using ab by (simp add: unat_word_ariths)
  have "unat (h + (16 + ALIGN sz 8)) = unat h + (16 + unat (ALIGN sz 8))"
    using hpe map ab u16a by (simp add: unat_word_ariths)
  with rest(2) hh uc
  show "unat h + 16 + unat (ALIGN sz 8) \<le> unat phdr + unat (phdr_offset_free_cached m phdr)"
    by (simp add: word_le_nat_alt word_less_nat_alt not_less)
  show "unat (phdr_offset_free_cached m phdr) \<le> unat (part_size part)"
    using chk uc upe by (simp add: word_le_nat_alt word_less_nat_alt not_less)
qed

lemma alloc_private_then_scan:
  assumes mapped: "partition_mapped part"
    and list: "uncached_list m (phdr_to_first_uncached_entry (part_virt_base part))
                 (phdr_to_last_uncached_entry m (part_virt_base part))"
    and sz: "unat sz < 2 ^ 32"
    and item: "unat item < 2 ^ 16"
    and alloc: "qcom_smem_alloc_private part item sz m = Some (Inr (), m')"
    and phdr_def: "phdr = part_virt_base part"
    and h_def: "h = phdr_to_last_uncached_entry m phdr"
  shows "get_private_uncached_loop m' part w (phdr_to_first_uncached_entry phdr)
           (phdr_to_last_uncached_entry m' phdr) item
           = Some (Inl (uncached_entry_found m' part h w))"
    and "alloc_private_loop m' (phdr_to_first_uncached_entry phdr)
           (phdr_to_last_uncached_entry m' phdr) item = Some (Inl EEXIST)"
    and "uncached_entry_found m' part h True = Inr (h + 16, Some sz)"
    and "unat (h + 16) = unat h + 16"
    and "phdr_to_last_uncached_entry m' phdr \<le> phdr + part_size part"
    and "phdr_to_last_cached_entry m' phdr \<le> phdr + part_size part"
proof -
  note f = alloc_private_success_facts [OF mapped list sz alloc phdr_def h_def]
  let ?A = "ALIGN sz 8"
  let ?first = "phdr_to_first_uncached_entry phdr"
  have map: "unat phdr + unat (part_size part) + 2 ^ 33 \<le> 2 ^ 64"
    using mapped by (simp add: partition_mapped_def phdr_def)
  have H1: "unat phdr + 32 \<le> unat h" by (rule f(4))
  have hle: "unat h + 16 + unat ?A \<le> unat phdr + unat (part_size part)"
    using f(5) f(6) by simp
  have H2: "unat h + 16 \<le> 2 ^ 64" using hle map by simp
  note ce = commit_effect [OF H1 H2, where m = m and item = item and sz = sz, folded f(1)]
  have ua: "unat ?A = ((unat sz + 7) div 8) * 8"
    using sz by (intro unat_ALIGN_8) simp
  have a_ge: "unat sz \<le> unat ?A" and a_le: "unat ?A \<le> unat sz + 7"
    unfolding ua by presburger+
  have a32: "unat ?A < 2 ^ 32 - 16" using hle f(3) f(6) H1
      unat_u32_bound [of "phdr_offset_free_cached m phdr"] f(5) by simp
  have u16a: "unat (16 + ?A) = 16 + unat ?A" using a32 by (simp add: unat_word_ariths)
  have u16a32: "unat (ucast (16 + ?A) :: u32) = 16 + unat ?A"
    using a32 u16a by (simp add: unat_ucast_64_32)
  have offc: "unat (phdr_offset_free_cached m phdr) < 2 ^ 32"
    using unat_u32_bound [of "phdr_offset_free_cached m phdr"] by simp
  have off': "unat (phdr_offset_free_uncached m' phdr)
                = unat (phdr_offset_free_uncached m phdr) + 16 + unat ?A"
    using f(3) f(5) offc u16a32 by (simp add: ce(7) unat_word_ariths)
  have uend': "unat (phdr_to_last_uncached_entry m' phdr) = unat h + 16 + unat ?A"
    using off' f(3) hle map
    by (simp add: phdr_to_last_uncached_entry_def unat_word_ariths unat_ucast_32_64)
  have lt: "h < phdr_to_last_uncached_entry m' phdr"
    using uend' by (simp add: word_less_nat_alt)
  have ufirst: "unat ?first = unat phdr + 32"
    using map by (simp add: phdr_to_first_uncached_entry_def unat_word_ariths)
  have it: "ucast (entry_item m' h) = item"
    using item by (simp add: ce(3) word_unat_eq_iff unat_ucast_16_32 unat_ucast_32_16)
  have scan: "get_private_uncached_loop m' part w ?first (phdr_to_last_uncached_entry m' phdr) item
           = Some (Inl (uncached_entry_found m' part h w))
         \<and> alloc_private_loop m' ?first (phdr_to_last_uncached_entry m' phdr) item
           = Some (Inl EEXIST)"
  proof (rule scan_finds_new_entry [where m = m and lo = "unat phdr + 16"])
    show "uncached_list m ?first h" using list by (simp add: phdr_def h_def)
    show "alloc_private_loop m ?first h item = Some (Inr h)" by (rule f(2))
    show "same_on m m' (unat phdr + 16) (unat h)" by (rule ce(1))
    show "unat phdr + 16 \<le> unat ?first" using ufirst by simp
    show "unat h + 2 ^ 33 \<le> 2 ^ 64" using hle map by simp
    show "h < phdr_to_last_uncached_entry m' phdr" by (rule lt)
    show "entry_canary m' h = SMEM_PRIVATE_CANARY" by (rule ce(2))
    show "ucast (entry_item m' h) = item" by (rule it)
  qed
  then show "get_private_uncached_loop m' part w ?first (phdr_to_last_uncached_entry m' phdr) item
           = Some (Inl (uncached_entry_found m' part h w))"
    and "alloc_private_loop m' ?first (phdr_to_last_uncached_entry m' phdr) item
           = Some (Inl EEXIST)"
    by simp_all
  have uh16: "unat (h + 16) = unat h + 16" using H2 hle map by (simp add: unat_word_ariths)
  show "unat (h + 16) = unat h + 16" by (rule uh16)
  have upe: "unat (phdr + part_size part) = unat phdr + unat (part_size part)"
    using map by (simp add: unat_word_ariths)
  have es: "unat (entry_size m' h) = unat ?A"
    using a32 by (simp add: ce(4) unat_ucast_64_32)
  have uu: "(ucast (ucast ?A :: u32) :: u64) = ?A"
    using a32 by (intro ucast_ucast_64_32) simp
  have szle: "sz \<le> ?A" using a_ge by (simp add: word_le_nat_alt)
  have upd64: "unat (?A - sz) = unat ?A - unat sz" using szle by (rule unat_sub)
  have pd: "unat (entry_padding_data m' h) = unat ?A - unat sz"
    using a_le a_ge upd64 by (simp add: ce(5) uu unat_ucast_64_16)
  have pd32: "unat (ucast (entry_padding_data m' h) :: u32) = unat ?A - unat sz"
    using pd by (simp add: unat_ucast_16_32)
  have ple: "(ucast (entry_padding_data m' h) :: u32) \<le> entry_size m' h"
    using pd32 es by (simp add: word_le_nat_alt)
  have "unat (entry_size m' h - ucast (entry_padding_data m' h)) = unat sz"
    using unat_sub [OF ple] pd32 es a_ge by simp
  then have res: "(ucast (entry_size m' h - ucast (entry_padding_data m' h)) :: u64) = sz"
    by (simp add: word_unat_eq_iff unat_ucast_32_64)
  have c1: "\<not> (ucast (entry_size m' h) :: u64) > part_size part"
    using es hle H1 by (simp add: word_less_nat_alt unat_ucast_32_64)
  have c2: "\<not> (ucast (entry_padding_data m' h) :: u32) > entry_size m' h"
    using ple by (simp add: not_less)
  have efs: "entry_found_size m' part h True = Inr (Some sz)"
    using c1 c2 res by (simp add: entry_found_size_def Let_def)
  have ip: "uncached_entry_to_item m' h = h + 16"
    by (simp add: uncached_entry_to_item_def ce(6))
  have c3: "\<not> h + 16 > part_virt_base part + part_size part"
    using uh16 upe hle by (simp add: word_less_nat_alt phdr_def)
  show "uncached_entry_found m' part h True = Inr (h + 16, Some sz)"
    using efs ip c3 by (simp add: uncached_entry_found_def Let_def)
  show "phdr_to_last_uncached_entry m' phdr \<le> phdr + part_size part"
    using uend' hle upe by (simp add: word_le_nat_alt)
  have "unat (phdr_to_last_cached_entry m' phdr) = unat phdr + unat (phdr_offset_free_cached m phdr)"
    using map offc
    by (simp add: phdr_to_last_cached_entry_def ce(8) unat_word_ariths unat_ucast_32_64)
  then show "phdr_to_last_cached_entry m' phdr \<le> phdr + part_size part"
    using f(6) upe by (simp add: word_le_nat_alt)
qed

section \<open>Allocation followed by lookup\<close>

lemma alloc_dispatch:
  "qcom_smem_alloc (Some smem) host item sz m =
     (if item < SMEM_ITEM_LAST_FIXED \<or> item \<ge> item_count smem then Some (Inl EINVAL, m)
      else case owning_partition smem host of
        Some part \<Rightarrow> qcom_smem_alloc_private part item sz m
      | None \<Rightarrow> Some (qcom_smem_alloc_global smem item sz m))"
  by (simp add: qcom_smem_alloc_def owning_partition_def)

lemma get_dispatch:
  "qcom_smem_get (Some smem) host item w m =
     (if item \<ge> item_count smem then Some (Inl EINVAL)
      else case owning_partition smem host of
        Some part \<Rightarrow> qcom_smem_get_private part item w m
      | None \<Rightarrow> Some (qcom_smem_get_global smem item w m))"
  by (simp add: qcom_smem_get_def owning_partition_def)

text \<open>Private partition: lookup and second allocation after a successful allocation.\<close>

lemma alloc_private_then_get:
  assumes "partition_valid part m" and "unat sz < 2 ^ 32" and "unat item < 2 ^ 16"
    and "qcom_smem_alloc_private part item sz m = Some (Inr (), m')"
  shows "qcom_smem_get_private part item True m'
           = Some (Inr (phdr_to_last_uncached_entry m (part_virt_base part) + 16, Some sz))"
    and "qcom_smem_alloc_private part item sz2 m' = Some (Inl EEXIST, m')"
    and "unat (part_virt_base part)
           \<le> unat (phdr_to_last_uncached_entry m (part_virt_base part) + 16)"
    and "unat (phdr_to_last_uncached_entry m (part_virt_base part) + 16) + unat sz
           \<le> unat (part_virt_base part) + unat (part_size part)"
proof -
  let ?phdr = "part_virt_base part"
  let ?h = "phdr_to_last_uncached_entry m ?phdr"
  have mapped: "partition_mapped part"
    and list: "uncached_list m (phdr_to_first_uncached_entry ?phdr) ?h"
    using assms(1) by (simp_all add: partition_valid_def)
  note s = alloc_private_then_scan [OF mapped list assms(2) assms(3) assms(4) refl refl]
  note f = alloc_private_success_facts [OF mapped list assms(2) assms(4) refl refl]
  show "qcom_smem_get_private part item True m' = Some (Inr (?h + 16, Some sz))"
    by (simp add: qcom_smem_get_private_def Let_def s(1) s(3))
  show "qcom_smem_alloc_private part item sz2 m' = Some (Inl EEXIST, m')"
    using s(5) s(6) by (simp add: qcom_smem_alloc_private_def Let_def s(2) not_less)
  show "unat ?phdr \<le> unat (?h + 16)" using s(4) f(4) by simp
  have a_ge: "unat sz \<le> unat (ALIGN sz 8)"
    using assms(2) unat_ALIGN_8 [of sz] by simp
  show "unat (?h + 16) + unat sz \<le> unat ?phdr + unat (part_size part)"
    using s(4) f(5) f(6) a_ge by simp
qed

text \<open>Legacy heap: lookup and second allocation after a successful allocation.\<close>

lemma toc_entry_written:
  fixes m E off sz1
  defines "m3 \<equiv> write_le32 (write_le32 (write_le32 m (E + 4) off) (E + 8) sz1) E 1"
  shows "global_entry_allocated m3 E = 1"
    and "global_entry_offset m3 E = off"
    and "global_entry_size m3 E = sz1"
    and "global_entry_aux_base m3 E = global_entry_aux_base m E"
  unfolding m3_def
  by (simp_all add: global_entry_allocated_def global_entry_offset_def global_entry_size_def
        global_entry_aux_base_def read_le32_def write_le32_def le32_bytes)

lemma global_entry_same_on:
  assumes "same_on m m' lo hi" and "lo \<le> unat e" and "unat e + 16 \<le> hi" and "hi \<le> 2 ^ 64"
  shows "global_entry_allocated m' e = global_entry_allocated m e"
    and "global_entry_offset m' e = global_entry_offset m e"
    and "global_entry_size m' e = global_entry_size m e"
    and "global_entry_aux_base m' e = global_entry_aux_base m e"
proof -
  have u: "unat (e + 4) = unat e + 4" "unat (e + 8) = unat e + 8" "unat (e + 12) = unat e + 12"
    using assms(3,4) unat_plus_nat [of e 4] unat_plus_nat [of e 8] unat_plus_nat [of e 12]
    by simp_all
  show "global_entry_allocated m' e = global_entry_allocated m e"
    unfolding global_entry_allocated_def
    using assms by (intro read_le32_same_on [OF assms(1)]) simp_all
  show "global_entry_offset m' e = global_entry_offset m e"
    unfolding global_entry_offset_def
    using assms u by (intro read_le32_same_on [OF assms(1)]) simp_all
  show "global_entry_size m' e = global_entry_size m e"
    unfolding global_entry_size_def
    using assms u by (intro read_le32_same_on [OF assms(1)]) simp_all
  show "global_entry_aux_base m' e = global_entry_aux_base m e"
    unfolding global_entry_aux_base_def
    using assms u by (intro read_le32_same_on [OF assms(1)]) simp_all
qed

lemma alloc_global_then_get:
  assumes valid: "legacy_valid smem item m" and sz: "unat sz < 2 ^ 32"
    and item: "unat item < 2 ^ 16"
    and alloc: "qcom_smem_alloc_global smem item sz m = (Inr (), m')"
  defines "r0 \<equiv> regions smem ! 0"
  defines "off \<equiv> header_free_offset m (region_virt_base r0)"
  shows "qcom_smem_get_global smem item True m'
           = Inr (region_virt_base r0 + ucast off, Some (ALIGN sz 8))"
    and "qcom_smem_alloc_global smem item sz2 m' = (Inl EEXIST, m')"
    and "unat (region_virt_base r0 + ucast off) = unat (region_virt_base r0) + unat off"
    and "unat off + unat (ALIGN sz 8) \<le> unat (region_size r0)"
    and "unat sz \<le> unat (ALIGN sz 8)"
proof -
  let ?H = "region_virt_base r0"
  let ?E = "header_toc ?H item"
  let ?A = "ALIGN sz 8"
  let ?m3 = "write_le32 (write_le32 (write_le32 m (?E + 4) off) (?E + 8) (ucast ?A)) ?E 1"
  let ?m4 = "le32_add_cpu ?m3 (?H + 196) (ucast ?A)"
  have v: "regions smem \<noteq> []" "num_regions smem \<noteq> 0"
    "unat ?H + unat (region_size r0) + 2 ^ 33 \<le> 2 ^ 64"
    "unat off + unat (header_available m ?H) \<le> unat (region_size r0)"
    "global_entry_aux_base m ?E AND AUX_BASE_MASK = 0"
    using valid by (simp_all add: legacy_valid_def r0_def off_def)
  from alloc have na: "global_entry_allocated m ?E = 0"
    and fit: "\<not> ?A > ucast (header_available m ?H)"
    and m': "m' = le32_add_cpu ?m4 (?H + 200) (ucast (- ?A))"
    by (auto simp add: qcom_smem_alloc_global_def Let_def r0_def off_def split: if_splits)
  have ua: "unat ?A = ((unat sz + 7) div 8) * 8" using sz by (intro unat_ALIGN_8) simp
  show a_ge: "unat sz \<le> unat ?A" unfolding ua by presburger
  have a_av: "unat ?A \<le> unat (header_available m ?H)"
    using fit by (simp add: not_less word_le_nat_alt unat_ucast_32_64)
  have a32: "unat ?A < 2 ^ 32" using a_av unat_u32_bound [of "header_available m ?H"] by simp
  show fits: "unat off + unat ?A \<le> unat (region_size r0)" using a_av v(4) by simp
  have uE: "unat ?E = unat ?H + 208 + 16 * unat item"
    using v(3) item
    by (simp add: header_toc_def unat_word_ariths unat_ucast_32_64)
  have u196: "unat (?H + 196) = unat ?H + 196" and u200: "unat (?H + 200) = unat ?H + 200"
    using v(3) unat_plus_nat [of ?H 196] unat_plus_nat [of ?H 200] by simp_all
  have s34: "same_on ?m3 ?m4 (unat (?H + 196) + 4) (2 ^ 64)"
    unfolding le32_add_cpu_def by (rule write_le32_same_on_above) (use u196 v(3) in simp)
  have s45: "same_on ?m4 m' (unat (?H + 200) + 4) (2 ^ 64)"
    unfolding m' le32_add_cpu_def by (rule write_le32_same_on_above) (use u200 v(3) in simp)
  have s35: "same_on ?m3 m' (unat ?H + 208) (2 ^ 64)"
    using same_on_trans [OF same_on_mono [OF s34, of "unat ?H + 208" "2 ^ 64"]
        same_on_mono [OF s45, of "unat ?H + 208" "2 ^ 64"]] u196 u200 by simp
  have lo: "unat ?H + 208 \<le> unat ?E" and hi: "unat ?E + 16 \<le> 2 ^ 64"
    using uE v(3) item by simp_all
  note g = global_entry_same_on [OF s35 lo hi order_refl]
  note w = toc_entry_written [of m ?E off "ucast ?A"]
  have al: "global_entry_allocated m' ?E = 1" using g(1) w(1) by simp
  have ofs: "global_entry_offset m' ?E = off" using g(2) w(2) by simp
  have si: "global_entry_size m' ?E = ucast ?A" using g(3) w(3) by simp
  have au: "global_entry_aux_base m' ?E AND AUX_BASE_MASK = 0" using g(4) w(4) v(5) by simp
  show "qcom_smem_alloc_global smem item sz2 m' = (Inl EEXIST, m')"
    using al by (simp add: qcom_smem_alloc_global_def Let_def r0_def [symmetric])
  obtain rs where tk: "take (unat (num_regions smem)) (regions smem) = r0 # rs"
  proof -
    have "0 < unat (num_regions smem)" using v(2) by (simp add: unat_gt_0)
    then obtain n where n: "unat (num_regions smem) = Suc n" by (cases "unat (num_regions smem)") auto
    obtain x xs where x: "regions smem = x # xs" using v(1) by (cases "regions smem") auto
    have "take (unat (num_regions smem)) (regions smem) = r0 # take n xs"
      by (simp add: n x r0_def)
    then show ?thesis by (rule that)
  qed
  have uoff: "unat (ucast off :: u64) = unat off" by (rule unat_ucast_32_64)
  have usz: "unat (ucast (ucast ?A :: u32) :: u64) = unat ?A"
    using a32 by (simp add: unat_ucast_32_64 unat_ucast_64_32)
  have sum: "unat ((ucast (ucast ?A :: u32) :: u64) + ucast off) = unat ?A + unat off"
    using usz uoff a32 unat_u32_bound [of off] by (simp add: unat_word_ariths)
  have chk: "\<not> (ucast (ucast ?A :: u32) :: u64) + ucast off > region_size r0"
    using sum fits by (simp add: word_less_nat_alt)
  have bk: "(ucast (ucast ?A :: u32) :: u64) = ?A"
    using a32 by (intro ucast_ucast_64_32) simp
  show "qcom_smem_get_global smem item True m' = Inr (?H + ucast off, Some ?A)"
    using al au chk
    by (simp add: qcom_smem_get_global_def Let_def r0_def [symmetric] tk ofs si bk)
  show "unat (?H + ucast off) = unat ?H + unat off"
    using v(3) uoff unat_u32_bound [of off] by (simp add: unat_word_ariths)
qed

lemma item_below_count:
  "heap_valid smem host item m \<Longrightarrow> qcom_smem_alloc (Some smem) host item sz m = Some (Inr (), m')
     \<Longrightarrow> unat item < 2 ^ 16 \<and> item < item_count smem"
  by (auto simp add: heap_valid_def alloc_dispatch word_less_nat_alt not_le split: if_splits)

text \<open>
  Claim C1.  On a valid heap, for a size below \<open>2^32\<close> (the record's size field has 32
  bits), a successful \<open>qcom_smem_alloc\<close> is followed by a \<open>qcom_smem_get\<close> that
  returns a pointer and a size: the size is at least the one asked for, and the bytes from
  the pointer up to that size lie within the owning partition or, in legacy mode, within
  region 0.  Success of the allocation implies that the item is at least
  \<open>SMEM_ITEM_LAST_FIXED\<close> and below the item count.
\<close>

theorem alloc_then_get:
  assumes "heap_valid smem host item m" and "unat sz < 2 ^ 32"
    and "qcom_smem_alloc (Some smem) host item sz m = Some (Inr (), m')"
  shows "\<exists>p sz'. qcom_smem_get (Some smem) host item True m' = Some (Inr (p, Some sz'))
           \<and> sz \<le> sz'
           \<and> unat (owner_base smem host) \<le> unat p
           \<and> unat p + unat sz' \<le> unat (owner_base smem host) + unat (owner_size smem host)"
proof -
  note it = item_below_count [OF assms(1) assms(3)]
  show ?thesis
  proof (cases "owning_partition smem host")
    case (Some part)
    have pv: "partition_valid part m" using assms(1) Some by (simp add: heap_valid_def)
    have al: "qcom_smem_alloc_private part item sz m = Some (Inr (), m')"
      using assms(3) Some by (simp add: alloc_dispatch split: if_splits)
    note g = alloc_private_then_get [OF pv assms(2) conjunct1 [OF it] al]
    show ?thesis
      using g(1) g(3) g(4) it Some
      by (auto simp add: get_dispatch owner_base_def owner_size_def not_le)
  next
    case None
    have lv: "legacy_valid smem item m" using assms(1) None by (simp add: heap_valid_def)
    have al: "qcom_smem_alloc_global smem item sz m = (Inr (), m')"
      using assms(3) None by (simp add: alloc_dispatch split: if_splits)
    note g = alloc_global_then_get [OF lv assms(2) conjunct1 [OF it] al]
    have ni: "\<not> item_count smem \<le> item" using it by (simp add: not_le)
    have ssz: "sz \<le> ALIGN sz 8" using g(5) by (simp add: word_le_nat_alt)
    show ?thesis
      using g(1) g(3) g(4) ssz ni None
      by (simp add: get_dispatch owner_base_def owner_size_def)
  qed
qed

text \<open>
  The same allocation is followed by \<open>-EEXIST\<close>: after a successful allocation of a size
  below \<open>2^32\<close> on a valid heap, an allocation of the same item for the same host, of any
  size, returns \<open>-EEXIST\<close> and the memory it was given.
\<close>

lemma second_alloc_exists:
  assumes "heap_valid smem host item m" and "unat sz < 2 ^ 32"
    and "qcom_smem_alloc (Some smem) host item sz m = Some (Inr (), m')"
  shows "qcom_smem_alloc (Some smem) host item sz2 m' = Some (Inl EEXIST, m')"
proof -
  note it = item_below_count [OF assms(1) assms(3)]
  have ge: "\<not> item < SMEM_ITEM_LAST_FIXED"
    using assms(3) by (auto simp add: alloc_dispatch split: if_splits)
  show ?thesis
  proof (cases "owning_partition smem host")
    case (Some part)
    have pv: "partition_valid part m" using assms(1) Some by (simp add: heap_valid_def)
    have al: "qcom_smem_alloc_private part item sz m = Some (Inr (), m')"
      using assms(3) Some by (simp add: alloc_dispatch split: if_splits)
    note g = alloc_private_then_get [OF pv assms(2) conjunct1 [OF it] al]
    show ?thesis using g(2) it ge Some by (auto simp add: alloc_dispatch not_le)
  next
    case None
    have lv: "legacy_valid smem item m" using assms(1) None by (simp add: heap_valid_def)
    have al: "qcom_smem_alloc_global smem item sz m = (Inr (), m')"
      using assms(3) None by (simp add: alloc_dispatch split: if_splits)
    note g = alloc_global_then_get [OF lv assms(2) conjunct1 [OF it] al]
    show ?thesis using g(2) it ge None by (auto simp add: alloc_dispatch not_le)
  qed
qed

lemma private_example_valid: "heap_valid private_smem 0 402 empty_mem"
  by (simp add: heap_valid_def owning_partition_def private_smem_def example_part_def
        SMEM_HOST_COUNT_def partition_valid_def partition_mapped_def empty_mem_def
        entry_defs field_defs uncached_list_end)

lemma private_example_alloc:
  "\<exists>m'. qcom_smem_alloc (Some private_smem) 0 402 384 empty_mem = Some (Inr (), m')"
  by (simp add: qcom_smem_alloc_def private_smem_def example_part_def SMEM_HOST_COUNT_def
        SMEM_ITEM_LAST_FIXED_def qcom_smem_alloc_private_def Let_def alloc_private_loop.simps
        empty_mem_def entry_defs field_defs ALIGN_def)

theorem alloc_then_get_witness:
  "\<exists>m' p sz'. qcom_smem_alloc (Some private_smem) 0 402 384 empty_mem = Some (Inr (), m')
      \<and> qcom_smem_get (Some private_smem) 0 402 True m' = Some (Inr (p, Some sz'))
      \<and> 384 \<le> sz' \<and> unat (owner_base private_smem 0) \<le> unat p
      \<and> unat p + unat sz' \<le> unat (owner_base private_smem 0) + unat (owner_size private_smem 0)"
proof -
  obtain m' where a: "qcom_smem_alloc (Some private_smem) 0 402 384 empty_mem = Some (Inr (), m')"
    using private_example_alloc by blast
  have s: "unat (384 :: u64) < 2 ^ 32" by simp
  from alloc_then_get [OF private_example_valid s a] a show ?thesis by blast
qed

text \<open>
  Claim C2.  A second allocation of an item returns \<open>-EEXIST\<close> after a first one of a size
  below \<open>2^32\<close> (lemma \<open>second_alloc_exists\<close>), but not after every successful first
  one.  The first call below, of \<open>2^64 - 56\<close> bytes in the empty example partition, passes
  the check against the cached region because \<open>hdr + alloc_size\<close> wraps, returns 0 and leaves
  \<open>offset_free_uncached = 0xfffffff8\<close>; the second call for the same host and item then
  fails the first test of \<open>qcom_smem_alloc_private\<close>, of the uncached cursor against the
  end of the partition, and returns \<open>-EINVAL\<close>.
\<close>

theorem second_alloc_after_wrapped_size:
  "(case qcom_smem_alloc (Some private_smem) 0 402 0xffffffffffffffc8 empty_mem of
      None \<Rightarrow> False
    | Some (r, m') \<Rightarrow> r = Inr ()
         \<and> qcom_smem_alloc (Some private_smem) 0 402 8 m' = Some (Inl EINVAL, m'))"
  by (simp add: qcom_smem_alloc_def private_smem_def example_part_def SMEM_HOST_COUNT_def
        SMEM_ITEM_LAST_FIXED_def qcom_smem_alloc_private_def Let_def alloc_private_loop.simps
        alloc_private_commit_def empty_mem_def entry_defs field_defs ALIGN_def)

section \<open>Statement order of the commit\<close>

lemma alloc_private_success_where:
  assumes mapped: "partition_mapped part"
    and list: "uncached_list m (phdr_to_first_uncached_entry (part_virt_base part))
                 (phdr_to_last_uncached_entry m (part_virt_base part))"
    and alloc: "qcom_smem_alloc_private part item sz m = Some (Inr (), m')"
    and phdr_def: "phdr = part_virt_base part"
    and h_def: "h = phdr_to_last_uncached_entry m phdr"
  shows "m' = foldl (alloc_stmt_exec phdr h item sz) m alloc_private_commit"
    and "unat phdr + 32 \<le> unat h"
    and "unat h \<le> unat phdr + unat (part_size part)"
proof -
  let ?first = "phdr_to_first_uncached_entry phdr"
  let ?cached = "phdr_to_last_cached_entry m phdr"
  let ?p_end = "phdr + part_size part"
  have map: "unat phdr + unat (part_size part) + 2 ^ 33 \<le> 2 ^ 64"
    using mapped by (simp add: partition_mapped_def phdr_def)
  have upe: "unat ?p_end = unat phdr + unat (part_size part)"
    using map by (simp add: unat_word_ariths)
  have ufirst: "unat ?first = unat phdr + 32"
    using map by (simp add: phdr_to_first_uncached_entry_def unat_word_ariths)
  from alloc have chk: "\<not> (h > ?p_end \<or> ?cached > ?p_end)"
    by (auto simp add: qcom_smem_alloc_private_def Let_def phdr_def h_def split: if_splits)
  from alloc chk obtain h' where
    loop: "alloc_private_loop m ?first h item = Some (Inr h')"
    and rest: "m' = foldl (alloc_stmt_exec phdr h' item sz) m alloc_private_commit"
    by (auto simp add: qcom_smem_alloc_private_def Let_def phdr_def h_def
          split: if_splits option.splits sum.splits)
  have hh: "h' = h"
    using list loop unfolding phdr_def [symmetric] h_def [symmetric]
    by (rule alloc_loop_ends_at_cursor)
  show "m' = foldl (alloc_stmt_exec phdr h item sz) m alloc_private_commit"
    using rest hh by simp
  have "?first \<le> h"
    using list unfolding phdr_def [symmetric] h_def [symmetric] by (rule uncached_list_le)
  then show "unat phdr + 32 \<le> unat h" using ufirst by (simp add: word_le_nat_alt)
  show "unat h \<le> unat phdr + unat (part_size part)"
    using chk upe by (simp add: word_le_nat_alt word_less_nat_alt not_less)
qed

lemma commit_prefix_no_cursor_store:
  "k < length alloc_private_commit \<Longrightarrow> s \<in> set (take k alloc_private_commit)
     \<Longrightarrow> s \<noteq> Add_free_uncached"
proof -
  assume k: "k < length alloc_private_commit" and s: "s \<in> set (take k alloc_private_commit)"
  have "take k alloc_private_commit = take k (butlast alloc_private_commit)"
    using k by (simp add: take_butlast)
  then have "s \<in> set (butlast alloc_private_commit)"
    using s in_set_takeD by metis
  then show ?thesis by (auto simp add: alloc_private_commit_def)
qed

text \<open>
  Claim C6.  In a successful allocation in a valid partition, run statement by statement:
  the memory after all seven statements is the one the allocation returns, and in every
  memory in between whose \<open>offset_free_uncached\<close> differs from the initial one, the write
  barrier has been executed and the record at the old cursor is complete (canary, item, size
  and both paddings).  This is the order of the stores in the program; what another
  processor sees of them is the barrier's business and outside the model.
\<close>

theorem record_written_before_cursor:
  assumes "partition_valid part m"
    and "qcom_smem_alloc_private part item sz m = Some (Inr (), m')"
    and "k \<le> length alloc_private_commit"
  shows "alloc_private_after part item sz m (length alloc_private_commit) = m'
     \<and> (phdr_offset_free_uncached (alloc_private_after part item sz m k) (part_virt_base part)
            \<noteq> phdr_offset_free_uncached m (part_virt_base part)
          \<longrightarrow> Wmb \<in> set (take k alloc_private_commit)
              \<and> record_complete (alloc_private_after part item sz m k)
                    (phdr_to_last_uncached_entry m (part_virt_base part)) item sz)"
proof -
  let ?phdr = "part_virt_base part"
  let ?h = "phdr_to_last_uncached_entry m ?phdr"
  have mapped: "partition_mapped part"
    and list: "uncached_list m (phdr_to_first_uncached_entry ?phdr) ?h"
    using assms(1) by (simp_all add: partition_valid_def)
  note f = alloc_private_success_where [OF mapped list assms(2) refl refl]
  have map: "unat ?phdr + unat (part_size part) + 2 ^ 33 \<le> 2 ^ 64"
    using mapped by (simp add: partition_mapped_def)
  have H1: "unat ?phdr + 32 \<le> unat ?h" by (rule f(2))
  have H2: "unat ?h + 16 \<le> 2 ^ 64" using f(3) map by simp
  have full: "alloc_private_after part item sz m (length alloc_private_commit) = m'"
    by (simp add: alloc_private_after_def f(1))
  note ce = commit_effect [OF H1 H2, where m = m and item = item and sz = sz, folded f(1)]
  show ?thesis
  proof (cases "k = length alloc_private_commit")
    case True
    have "record_complete m' ?h item sz"
      by (simp add: record_complete_def ce)
    then show ?thesis using True full by (simp add: alloc_private_commit_def)
  next
    case False
    then have lt: "k < length alloc_private_commit" using assms(3) by simp
    let ?mk = "alloc_private_after part item sz m k"
    have "same_on m ?mk 0 (unat ?h)"
      unfolding same_on_def alloc_private_after_def
    proof (intro allI impI)
      fix a :: addr assume "0 \<le> unat a \<and> unat a < unat ?h"
      then show "foldl (alloc_stmt_exec ?phdr ?h item sz) m (take k alloc_private_commit) a = m a"
        by (intro foldl_frame stmt_frame_record [OF H2] commit_prefix_no_cursor_store [OF lt]) auto
    qed
    moreover have "unat (?phdr + 12) = unat ?phdr + 12"
      using map unat_plus_nat [of ?phdr 12] by simp
    ultimately have "read_le32 ?mk (?phdr + 12) = read_le32 m (?phdr + 12)"
      using H1 H2 by (intro read_le32_same_on [where lo = 0 and hi = "unat ?h"]) simp_all
    then show ?thesis using full by (simp add: phdr_offset_free_uncached_def)
  qed
qed

theorem record_written_before_cursor_witness:
  "\<exists>m'. qcom_smem_alloc_private example_part 402 384 empty_mem = Some (Inr (), m')
     \<and> alloc_private_after example_part 402 384 empty_mem 7 = m'
     \<and> phdr_offset_free_uncached m' 0x1000 = 0x1b0
     \<and> record_complete m' 0x1020 402 384"
proof -
  have v: "partition_valid example_part empty_mem"
    by (simp add: partition_valid_def partition_mapped_def example_part_def empty_mem_def
          entry_defs field_defs uncached_list_end)
  obtain m' where a: "qcom_smem_alloc_private example_part 402 384 empty_mem = Some (Inr (), m')"
    using private_example_alloc
    by (auto simp add: qcom_smem_alloc_def private_smem_def SMEM_HOST_COUNT_def
          SMEM_ITEM_LAST_FIXED_def example_part_def split: if_splits)
  have l: "length alloc_private_commit = 7" by (simp add: alloc_private_commit_def)
  have h: "phdr_to_last_uncached_entry empty_mem (part_virt_base example_part) = 0x1020"
    by (simp add: example_part_def empty_mem_def entry_defs field_defs)
  have c0: "phdr_offset_free_uncached empty_mem (part_virt_base example_part) = 0x20"
    by (simp add: example_part_def empty_mem_def entry_defs field_defs)
  have c7: "phdr_offset_free_uncached (alloc_private_after example_part 402 384 empty_mem 7)
              (part_virt_base example_part) = 0x1b0"
    by (simp add: alloc_private_after_def alloc_private_commit_def example_part_def empty_mem_def
          entry_defs field_defs ALIGN_def)
  from record_written_before_cursor [OF v a, of 7] l h c0 c7 a
  show ?thesis by (auto simp add: example_part_def)
qed

section \<open>Bounds in lookup\<close>

lemma oob_lookup:
  "qcom_smem_get_private example_part 402 True oob_mem = Some (Inr (0x1030, Some 0x1000))"
  by (simp add: example_part_def qcom_smem_get_private_def Let_def
        get_private_uncached_loop.simps uncached_entry_found_def entry_found_size_def
        oob_mem_def entry_defs field_defs)

lemma legacy_span_rejected:
  "qcom_smem_get (Some legacy_smem) 0xffffffff 402 True legacy_oob_mem = Some (Inl EINVAL)"
  by (simp add: qcom_smem_get_def legacy_smem_def zero_partition_def SMEM_HOST_COUNT_def
        qcom_smem_get_global_def legacy_oob_mem_def AUX_BASE_MASK_def Let_def field_defs)

text \<open>
  Claim C5.  \<open>qcom_smem_get_private\<close> checks a matching entry field by field: its size
  against the partition size, its padding against its size, and its item pointer alone against
  the end of the partition; the span from the pointer over the size is never compared with the
  end, as \<open>qcom_smem_get_global\<close> does with \<open>e_size + entry_offset > region->size\<close>
  (lemma \<open>legacy_span_rejected\<close>).  In the state below the data of item 402 starts 48 bytes
  into a partition of 4096 bytes and has size 4096: the lookup returns the pointer \<open>0x1030\<close>
  and the size \<open>0x1000\<close>, a span that ends 48 bytes beyond the partition.
\<close>

theorem lookup_span_beyond_partition:
  "qcom_smem_get (Some private_smem) 0 402 True oob_mem = Some (Inr (0x1030, Some 0x1000))
   \<and> unat (0x1030 :: addr) + unat (0x1000 :: u64)
       > unat (part_virt_base example_part) + unat (part_size example_part)"
  using oob_lookup
  by (simp add: qcom_smem_get_def private_smem_def SMEM_HOST_COUNT_def)
    (simp add: example_part_def)

text \<open>
  What the checks of a match do give: a size that is reported never exceeds the partition
  size.
\<close>

lemma entry_found_size_bound:
  "entry_found_size m part e True = Inr s \<Longrightarrow> \<exists>n. s = Some n \<and> n \<le> part_size part"
proof -
  assume a: "entry_found_size m part e True = Inr s"
  let ?es = "entry_size m e"
  let ?pd = "ucast (entry_padding_data m e) :: u32"
  from a have c: "\<not> (ucast ?es :: u64) > part_size part" "\<not> ?pd > ?es"
    and s: "s = Some (ucast (?es - ?pd))"
    by (auto simp add: entry_found_size_def Let_def split: if_splits)
  have "unat (?es - ?pd) \<le> unat ?es"
    using c(2) by (simp add: not_less unat_sub)
  moreover have "unat ?es \<le> unat (part_size part)"
    using c(1) by (simp add: not_less word_le_nat_alt unat_ucast_32_64)
  ultimately have "(ucast (?es - ?pd) :: u64) \<le> part_size part"
    by (simp add: word_le_nat_alt unat_ucast_32_64)
  with s show ?thesis by simp
qed

lemma uncached_entry_found_checked:
  "uncached_entry_found m part e True = Inr (p, s)
     \<Longrightarrow> p \<le> part_virt_base part + part_size part \<and> (\<exists>n. s = Some n \<and> n \<le> part_size part)"
  by (auto simp add: uncached_entry_found_def Let_def not_less
        split: sum.splits if_splits dest: entry_found_size_bound)

lemma cached_entry_found_checked:
  "cached_entry_found m part e True = Inr (p, s)
     \<Longrightarrow> part_virt_base part \<le> p \<and> (\<exists>n. s = Some n \<and> n \<le> part_size part)"
  by (auto simp add: cached_entry_found_def Let_def not_less
        split: sum.splits if_splits dest: entry_found_size_bound)

lemma get_uncached_loop_returns:
  "get_private_uncached_loop m part w e en item = Some r \<Longrightarrow>
     \<forall>x. r = Inl x \<longrightarrow> x = Inl EINVAL \<or> (\<exists>e'. x = uncached_entry_found m part e' w)"
  apply (erule get_private_uncached_loop.raw_induct [rotated, where
        P = "\<lambda>m part w e en item r.
               \<forall>x. r = Inl x \<longrightarrow> x = Inl EINVAL \<or> (\<exists>e'. x = uncached_entry_found m part e' w)"])
  apply (auto split: if_splits)
  done

lemma get_cached_loop_returns:
  "get_private_cached_loop m part w e en item = Some r \<Longrightarrow>
     \<forall>x. r = Inl x \<longrightarrow> x = Inl EINVAL \<or> (\<exists>e'. x = cached_entry_found m part e' w)"
  apply (erule get_private_cached_loop.raw_induct [rotated, where
        P = "\<lambda>m part w e en item r.
               \<forall>x. r = Inl x \<longrightarrow> x = Inl EINVAL \<or> (\<exists>e'. x = cached_entry_found m part e' w)"])
  apply (auto split: if_splits)
  done

lemma get_private_reports_bounded_size:
  assumes "qcom_smem_get_private part item True m = Some (Inr (p, s))"
  shows "\<exists>n. s = Some n \<and> n \<le> part_size part"
proof -
  from assms consider
    (u) "get_private_uncached_loop m part True (phdr_to_first_uncached_entry (part_virt_base part))
          (phdr_to_last_uncached_entry m (part_virt_base part)) item = Some (Inl (Inr (p, s)))"
  | (c) "get_private_cached_loop m part True
          (phdr_to_first_cached_entry m (part_virt_base part) (part_cacheline part))
          (phdr_to_last_cached_entry m (part_virt_base part)) item = Some (Inl (Inr (p, s)))"
    by (auto simp add: qcom_smem_get_private_def Let_def split: option.splits sum.splits if_splits)
  then show ?thesis
  proof cases
    case u
    from get_uncached_loop_returns [OF u] obtain e' where
      "uncached_entry_found m part e' True = Inr (p, s)" by auto
    then show ?thesis using uncached_entry_found_checked by blast
  next
    case c
    from get_cached_loop_returns [OF c] obtain e' where
      "cached_entry_found m part e' True = Inr (p, s)" by auto
    then show ?thesis using cached_entry_found_checked by blast
  qed
qed

section \<open>The cursors\<close>

lemma alloc_private_error_unchanged:
  "qcom_smem_alloc_private part item sz m = Some (Inl err, m') \<Longrightarrow> m' = m"
  by (auto simp add: qcom_smem_alloc_private_def Let_def
        split: if_splits option.splits sum.splits)

lemma alloc_private_keeps_cursor_order:
  assumes "partition_valid part m" and "unat sz < 2 ^ 32"
    and "qcom_smem_alloc_private part item sz m = Some (Inr (), m')"
  shows "phdr_offset_free_uncached m' (part_virt_base part)
           \<le> phdr_offset_free_cached m' (part_virt_base part)"
proof -
  let ?phdr = "part_virt_base part"
  let ?h = "phdr_to_last_uncached_entry m ?phdr"
  let ?A = "ALIGN sz 8"
  have mapped: "partition_mapped part"
    and list: "uncached_list m (phdr_to_first_uncached_entry ?phdr) ?h"
    using assms(1) by (simp_all add: partition_valid_def)
  note f = alloc_private_success_facts [OF mapped list assms(2) assms(3) refl refl]
  have map: "unat ?phdr + unat (part_size part) + 2 ^ 33 \<le> 2 ^ 64"
    using mapped by (simp add: partition_mapped_def)
  have H2: "unat ?h + 16 \<le> 2 ^ 64" using f(5) f(6) map by simp
  note ce = commit_effect [OF f(4) H2, where m = m and item = item and sz = sz, folded f(1)]
  have offc: "unat (phdr_offset_free_cached m ?phdr) < 2 ^ 32"
    using unat_u32_bound [of "phdr_offset_free_cached m ?phdr"] by simp
  have a32: "unat ?A < 2 ^ 32 - 16" using f(3) f(5) offc by simp
  have "unat (16 + ?A) = 16 + unat ?A" using a32 by (simp add: unat_word_ariths)
  then have "unat (ucast (16 + ?A) :: u32) = 16 + unat ?A"
    using a32 by (simp add: unat_ucast_64_32)
  then have "unat (phdr_offset_free_uncached m' ?phdr)
                = unat (phdr_offset_free_uncached m ?phdr) + 16 + unat ?A"
    using f(3) f(5) offc by (simp add: ce(7) unat_word_ariths)
  then show ?thesis using f(3) f(5) by (simp add: ce(8) word_le_nat_alt)
qed

text \<open>
  Claim C3.  In a valid partition an allocation of a size below \<open>2^32\<close> keeps
  \<open>offset_free_uncached \<le> offset_free_cached\<close>, and every error return leaves memory as
  it was (the two lemmas above).  But \<open>alloc_size\<close> and \<open>hdr + alloc_size\<close> are
  computed modulo \<open>2^64\<close>: for the size \<open>2^64 - 56\<close> the sum is \<open>hdr - 40\<close>, the check
  against the cached region passes, and the cursor, advanced by \<open>alloc_size\<close> modulo
  \<open>2^32\<close>, goes from \<open>0x20\<close> to \<open>0xfffffff8\<close>, far beyond \<open>offset_free_cached\<close>.
\<close>

theorem alloc_private_size_wraps:
  "(case qcom_smem_alloc (Some private_smem) 0 402 0xffffffffffffffc8 empty_mem of
      None \<Rightarrow> False
    | Some (r, m') \<Rightarrow> r = Inr ()
         \<and> phdr_offset_free_uncached empty_mem 0x1000 = 0x20
         \<and> phdr_offset_free_cached empty_mem 0x1000 = 0x1000
         \<and> phdr_offset_free_uncached m' 0x1000 = 0xfffffff8
         \<and> phdr_offset_free_cached m' 0x1000 = 0x1000)"
  by (simp add: qcom_smem_alloc_def private_smem_def example_part_def SMEM_HOST_COUNT_def
        SMEM_ITEM_LAST_FIXED_def qcom_smem_alloc_private_def Let_def alloc_private_loop.simps
        alloc_private_commit_def empty_mem_def entry_defs field_defs ALIGN_def)

section \<open>Canaries\<close>

lemma alloc_loop_bad_canary:
  "uncached_path m item end e0 e \<Longrightarrow> e < end \<Longrightarrow> entry_canary m e \<noteq> SMEM_PRIVATE_CANARY
    \<Longrightarrow> alloc_private_loop m e0 end item = Some (Inl EINVAL)"
  by (induction rule: uncached_path.induct) (simp_all add: alloc_private_loop.simps)

lemma get_uncached_loop_bad_canary:
  "uncached_path m item end e0 e \<Longrightarrow> e < end \<Longrightarrow> entry_canary m e \<noteq> SMEM_PRIVATE_CANARY
    \<Longrightarrow> get_private_uncached_loop m part w e0 end item = Some (Inl (Inl EINVAL))"
  by (induction rule: uncached_path.induct) (simp_all add: get_private_uncached_loop.simps)

lemma get_cached_loop_bad_canary:
  "cached_path m item cl end e0 e \<Longrightarrow> e > end \<Longrightarrow> entry_canary m e \<noteq> SMEM_PRIVATE_CANARY
    \<Longrightarrow> cl = part_cacheline part
    \<Longrightarrow> get_private_cached_loop m part w e0 end item = Some (Inl (Inl EINVAL))"
  by (induction rule: cached_path.induct) (simp_all add: get_private_cached_loop.simps)

text \<open>
  Claim C4.  When the forward scan of a partition (the one of allocation, or the first one of
  lookup) arrives at an entry below the cursor whose canary is not \<open>0xa5a5\<close>, the operation
  returns \<open>-EINVAL\<close> there, and allocation leaves memory as it was; the same holds for the
  scan of the cached list in lookup, once the forward scan has ended without a match.  The
  path predicates constrain only the entries before the corrupt one, so nothing the memory
  holds past it is looked at.
\<close>

theorem canary_mismatch_aborts:
  "(uncached_path m item (phdr_to_last_uncached_entry m (part_virt_base part))
        (phdr_to_first_uncached_entry (part_virt_base part)) e
      \<and> e < phdr_to_last_uncached_entry m (part_virt_base part)
      \<and> entry_canary m e \<noteq> SMEM_PRIVATE_CANARY
    \<longrightarrow> qcom_smem_alloc_private part item sz m = Some (Inl EINVAL, m)
        \<and> qcom_smem_get_private part item want_size m = Some (Inl EINVAL))
   \<and> (get_private_uncached_loop m part want_size
          (phdr_to_first_uncached_entry (part_virt_base part))
          (phdr_to_last_uncached_entry m (part_virt_base part)) item = Some (Inr e1)
      \<and> cached_path m item (part_cacheline part) (phdr_to_last_cached_entry m (part_virt_base part))
          (phdr_to_first_cached_entry m (part_virt_base part) (part_cacheline part)) e
      \<and> e > phdr_to_last_cached_entry m (part_virt_base part)
      \<and> entry_canary m e \<noteq> SMEM_PRIVATE_CANARY
    \<longrightarrow> qcom_smem_get_private part item want_size m = Some (Inl EINVAL))"
  by (auto simp add: qcom_smem_alloc_private_def qcom_smem_get_private_def Let_def
        alloc_loop_bad_canary get_uncached_loop_bad_canary get_cached_loop_bad_canary)

theorem canary_mismatch_aborts_witness:
  "qcom_smem_alloc_private example_part 402 8 bad_uncached_mem = Some (Inl EINVAL, bad_uncached_mem)
   \<and> qcom_smem_get_private example_part 402 True bad_uncached_mem = Some (Inl EINVAL)
   \<and> qcom_smem_get_private example_part 402 True bad_cached_mem = Some (Inl EINVAL)"
proof -
  have nx: "uncached_entry_next bad_uncached_mem 0x1020 = 0x1040"
    by (simp add: bad_uncached_mem_def entry_defs field_defs)
  have p: "uncached_path bad_uncached_mem 402
        (phdr_to_last_uncached_entry bad_uncached_mem (part_virt_base example_part))
        (phdr_to_first_uncached_entry (part_virt_base example_part)) 0x1040"
    apply (simp add: example_part_def phdr_to_first_uncached_entry_def)
    apply (rule uncached_path_next)
       apply (simp_all add: nx uncached_path_here)
      apply (simp_all add: bad_uncached_mem_def entry_defs field_defs)
    done
  have a: "(0x1040 :: addr)
      < phdr_to_last_uncached_entry bad_uncached_mem (part_virt_base example_part)"
    by (simp add: example_part_def bad_uncached_mem_def entry_defs field_defs)
  have b: "entry_canary bad_uncached_mem 0x1040 \<noteq> SMEM_PRIVATE_CANARY"
    by (simp add: bad_uncached_mem_def entry_defs field_defs)
  have l: "get_private_uncached_loop bad_cached_mem example_part True
          (phdr_to_first_uncached_entry (part_virt_base example_part))
          (phdr_to_last_uncached_entry bad_cached_mem (part_virt_base example_part)) 402
          = Some (Inr 0x1020)"
    by (simp add: get_private_uncached_loop.simps example_part_def bad_cached_mem_def
          entry_defs field_defs)
  have fc: "phdr_to_first_cached_entry bad_cached_mem (part_virt_base example_part)
              (part_cacheline example_part) = 0x1fc0"
    by (simp add: example_part_def bad_cached_mem_def entry_defs field_defs ALIGN_def)
  have c: "cached_path bad_cached_mem 402 (part_cacheline example_part)
          (phdr_to_last_cached_entry bad_cached_mem (part_virt_base example_part))
          (phdr_to_first_cached_entry bad_cached_mem (part_virt_base example_part)
             (part_cacheline example_part)) 0x1fc0"
    by (simp add: fc cached_path_here)
  have d: "(0x1fc0 :: addr)
      > phdr_to_last_cached_entry bad_cached_mem (part_virt_base example_part)"
    by (simp add: example_part_def bad_cached_mem_def entry_defs field_defs)
  have e: "entry_canary bad_cached_mem 0x1fc0 \<noteq> SMEM_PRIVATE_CANARY"
    by (simp add: bad_cached_mem_def entry_defs field_defs)
  from canary_mismatch_aborts [of bad_uncached_mem 402 example_part "0x1040" 8 True]
    canary_mismatch_aborts [of bad_cached_mem 402 example_part "0x1fc0" 8 True "0x1020"]
    p a b l c d e
  show ?thesis by blast
qed

section \<open>Reserved items\<close>

lemma get_uncached_loop_found:
  "uncached_path m item end e0 e \<Longrightarrow> e < end \<Longrightarrow> entry_canary m e = SMEM_PRIVATE_CANARY
    \<Longrightarrow> ucast (entry_item m e) = item
    \<Longrightarrow> get_private_uncached_loop m part w e0 end item
          = Some (Inl (uncached_entry_found m part e w))"
  by (induction rule: uncached_path.induct) (simp_all add: get_private_uncached_loop.simps)

lemma get_uncached_loop_ends:
  "uncached_path m item end e0 e \<Longrightarrow> end \<le> e
    \<Longrightarrow> get_private_uncached_loop m part w e0 end item = Some (Inr e)"
  by (induction rule: uncached_path.induct)
    (simp_all add: get_private_uncached_loop.simps not_less [symmetric])

lemma get_cached_loop_found:
  "cached_path m item cl end e0 e \<Longrightarrow> e > end \<Longrightarrow> entry_canary m e = SMEM_PRIVATE_CANARY
    \<Longrightarrow> ucast (entry_item m e) = item \<Longrightarrow> cl = part_cacheline part
    \<Longrightarrow> get_private_cached_loop m part w e0 end item
          = Some (Inl (cached_entry_found m part e w))"
  by (induction rule: cached_path.induct) (simp_all add: get_private_cached_loop.simps)

lemma entry_found_size_well_formed:
  "entry_well_formed m part item e \<Longrightarrow>
     entry_found_size m part e w
       = Inr (if w then Some (ucast (entry_size m e - ucast (entry_padding_data m e))) else None)"
  by (simp add: entry_well_formed_def entry_found_size_def Let_def not_less [symmetric])

lemma get_private_uncached_item:
  assumes "uncached_item m part item e"
  shows "qcom_smem_get_private part item w m
     = Some (Inr (uncached_entry_to_item m e,
          if w then Some (ucast (entry_size m e - ucast (entry_padding_data m e))) else None))"
proof -
  from assms have wf: "entry_well_formed m part item e"
    and p: "\<not> uncached_entry_to_item m e > part_virt_base part + part_size part"
    by (simp_all add: uncached_item_def not_less)
  from assms have "get_private_uncached_loop m part w
      (phdr_to_first_uncached_entry (part_virt_base part))
      (phdr_to_last_uncached_entry m (part_virt_base part)) item
        = Some (Inl (uncached_entry_found m part e w))"
    by (intro get_uncached_loop_found) (simp_all add: uncached_item_def entry_well_formed_def)
  then show ?thesis
    using p by (simp add: qcom_smem_get_private_def Let_def uncached_entry_found_def
        entry_found_size_well_formed [OF wf])
qed

lemma get_private_cached_item:
  assumes "cached_item m part item e1 e"
  shows "qcom_smem_get_private part item w m
     = Some (Inr (cached_entry_to_item m e,
          if w then Some (ucast (entry_size m e - ucast (entry_padding_data m e))) else None))"
proof -
  let ?phdr = "part_virt_base part"
  from assms have wf: "entry_well_formed m part item e"
    and p: "\<not> cached_entry_to_item m e < ?phdr"
    and b: "\<not> e1 > ?phdr + part_size part"
      "\<not> phdr_to_first_cached_entry m ?phdr (part_cacheline part) < ?phdr"
      "\<not> phdr_to_last_cached_entry m ?phdr > ?phdr + part_size part"
    by (simp_all add: cached_item_def not_less)
  from assms have u: "get_private_uncached_loop m part w
      (phdr_to_first_uncached_entry ?phdr) (phdr_to_last_uncached_entry m ?phdr) item
        = Some (Inr e1)"
    by (intro get_uncached_loop_ends) (simp_all add: cached_item_def)
  from assms have c: "get_private_cached_loop m part w
      (phdr_to_first_cached_entry m ?phdr (part_cacheline part))
      (phdr_to_last_cached_entry m ?phdr) item
        = Some (Inl (cached_entry_found m part e w))"
    by (intro get_cached_loop_found [where cl = "part_cacheline part"])
      (simp_all add: cached_item_def entry_well_formed_def)
  show ?thesis
    using p b by (simp add: qcom_smem_get_private_def Let_def u c cached_entry_found_def
        entry_found_size_well_formed [OF wf])
qed

lemma get_global_legacy_item:
  assumes "legacy_item m smem item"
  shows "qcom_smem_get_global smem item w m
     = Inr (region_virt_base (regions smem ! 0)
              + ucast (global_entry_offset m
                  (header_toc (region_virt_base (regions smem ! 0)) item)),
            if w then Some (ucast (global_entry_size m
                  (header_toc (region_virt_base (regions smem ! 0)) item))) else None)"
proof -
  from assms obtain r rs where rs: "regions smem = r # rs"
    by (cases "regions smem") (simp_all add: legacy_item_def Let_def)
  from assms have "unat (num_regions smem) \<noteq> 0"
    by (simp add: legacy_item_def Let_def unat_eq_0)
  then obtain k where k: "unat (num_regions smem) = Suc k"
    by (cases "unat (num_regions smem)") simp_all
  from assms show ?thesis
    by (simp add: legacy_item_def qcom_smem_get_global_def Let_def rs k not_less [symmetric])
qed

text \<open>
  Claim C10.  For an item below \<open>SMEM_ITEM_LAST_FIXED\<close> (8), on an initialised driver,
  \<open>qcom_smem_alloc\<close> returns \<open>-EINVAL\<close> and changes nothing, whatever the heap holds.
  \<open>qcom_smem_get\<close> refuses the item only when it is not below the item count; otherwise,
  when the item is there, in the uncached or the cached list of the host's partition or in
  the legacy directory, it returns the pointer to the item's data and, if asked, its size.
\<close>

theorem reserved_ids_alloc_only:
  "item < SMEM_ITEM_LAST_FIXED \<Longrightarrow>
     qcom_smem_alloc (Some smem) host item sz m = Some (Inl EINVAL, m)
   \<and> (item_count smem \<le> item \<longrightarrow>
        qcom_smem_get (Some smem) host item want_size m = Some (Inl EINVAL))
   \<and> (item < item_count smem \<and> owning_partition smem host = Some part
         \<and> uncached_item m part item e \<longrightarrow>
        qcom_smem_get (Some smem) host item want_size m
          = Some (Inr (uncached_entry_to_item m e,
              if want_size
                then Some (ucast (entry_size m e - ucast (entry_padding_data m e))) else None)))
   \<and> (item < item_count smem \<and> owning_partition smem host = Some part
         \<and> cached_item m part item e1 e \<longrightarrow>
        qcom_smem_get (Some smem) host item want_size m
          = Some (Inr (cached_entry_to_item m e,
              if want_size
                then Some (ucast (entry_size m e - ucast (entry_padding_data m e))) else None)))
   \<and> (item < item_count smem \<and> owning_partition smem host = None
         \<and> legacy_item m smem item \<longrightarrow>
        qcom_smem_get (Some smem) host item want_size m
          = Some (Inr (region_virt_base (regions smem ! 0)
                + ucast (global_entry_offset m
                    (header_toc (region_virt_base (regions smem ! 0)) item)),
              if want_size
                then Some (ucast (global_entry_size m
                    (header_toc (region_virt_base (regions smem ! 0)) item))) else None)))"
proof (intro conjI impI)
  assume "item < SMEM_ITEM_LAST_FIXED"
  then show "qcom_smem_alloc (Some smem) host item sz m = Some (Inl EINVAL, m)"
    by (simp add: alloc_dispatch)
next
  assume "item_count smem \<le> item"
  then show "qcom_smem_get (Some smem) host item want_size m = Some (Inl EINVAL)"
    by (simp add: get_dispatch)
next
  assume "item < item_count smem \<and> owning_partition smem host = Some part
    \<and> uncached_item m part item e"
  then show "qcom_smem_get (Some smem) host item want_size m
          = Some (Inr (uncached_entry_to_item m e,
              if want_size
                then Some (ucast (entry_size m e - ucast (entry_padding_data m e))) else None))"
    using get_private_uncached_item [of m part item e want_size]
    by (simp add: get_dispatch not_le [symmetric])
next
  assume "item < item_count smem \<and> owning_partition smem host = Some part
    \<and> cached_item m part item e1 e"
  then show "qcom_smem_get (Some smem) host item want_size m
          = Some (Inr (cached_entry_to_item m e,
              if want_size
                then Some (ucast (entry_size m e - ucast (entry_padding_data m e))) else None))"
    using get_private_cached_item [of m part item e1 e want_size]
    by (simp add: get_dispatch not_le [symmetric])
next
  assume "item < item_count smem \<and> owning_partition smem host = None
    \<and> legacy_item m smem item"
  then show "qcom_smem_get (Some smem) host item want_size m
          = Some (Inr (region_virt_base (regions smem ! 0)
                + ucast (global_entry_offset m
                    (header_toc (region_virt_base (regions smem ! 0)) item)),
              if want_size
                then Some (ucast (global_entry_size m
                    (header_toc (region_virt_base (regions smem ! 0)) item))) else None))"
    using get_global_legacy_item [of m smem item want_size]
    by (simp add: get_dispatch not_le [symmetric])
qed

lemma reserved_uncached_example: "uncached_item reserved_uncached_mem example_part 3 0x1040"
proof -
  have nx: "uncached_entry_next reserved_uncached_mem 0x1020 = 0x1040"
    by (simp add: reserved_uncached_mem_def entry_defs field_defs)
  have p: "uncached_path reserved_uncached_mem 3
        (phdr_to_last_uncached_entry reserved_uncached_mem (part_virt_base example_part))
        (phdr_to_first_uncached_entry (part_virt_base example_part)) 0x1040"
    apply (simp add: example_part_def phdr_to_first_uncached_entry_def)
    apply (rule uncached_path_next)
       apply (simp_all add: nx uncached_path_here)
      apply (simp_all add: reserved_uncached_mem_def entry_defs field_defs)
    done
  show ?thesis
    unfolding uncached_item_def
    apply (intro conjI p)
      apply (simp_all add: entry_well_formed_def example_part_def reserved_uncached_mem_def
        entry_defs field_defs)
    done
qed

lemma reserved_cached_example: "cached_item reserved_cached_mem example_part 3 0x1020 0x1fc0"
proof -
  have fc: "phdr_to_first_cached_entry reserved_cached_mem (part_virt_base example_part)
              (part_cacheline example_part) = 0x1fc0"
    by (simp add: example_part_def reserved_cached_mem_def entry_defs field_defs ALIGN_def)
  have fu: "phdr_to_first_uncached_entry (part_virt_base example_part) = 0x1020"
    by (simp add: example_part_def entry_defs)
  show ?thesis
    unfolding cached_item_def fc fu
    apply (intro conjI uncached_path_here cached_path_here)
          apply (simp_all add: entry_well_formed_def example_part_def reserved_cached_mem_def
        entry_defs field_defs)
    done
qed

lemma reserved_legacy_example: "legacy_item legacy_item3_mem legacy_smem 3"
  by (simp add: legacy_item_def legacy_smem_def legacy_item3_mem_def AUX_BASE_MASK_def
        Let_def field_defs)

theorem reserved_ids_alloc_only_witness:
  "qcom_smem_alloc (Some private_smem) 0 3 8 reserved_uncached_mem
      = Some (Inl EINVAL, reserved_uncached_mem)
   \<and> qcom_smem_get (Some private_smem) 0 3 True reserved_uncached_mem
      = Some (Inr (0x1050, Some 12))
   \<and> qcom_smem_get (Some private_smem) 0 3 True reserved_cached_mem
      = Some (Inr (0x1f80, Some 64))
   \<and> qcom_smem_get (Some legacy_smem) 0xffffffff 3 True legacy_item3_mem
      = Some (Inr (0x4000, Some 64))
   \<and> qcom_smem_get (Some (legacy_smem\<lparr>item_count := 2\<rparr>)) 0xffffffff 3 True legacy_item3_mem
      = Some (Inl EINVAL)"
proof -
  have lt: "(3 :: u32) < SMEM_ITEM_LAST_FIXED" by (simp add: SMEM_ITEM_LAST_FIXED_def)
  have po: "owning_partition private_smem 0 = Some example_part"
    by (simp add: owning_partition_def private_smem_def example_part_def SMEM_HOST_COUNT_def)
  have lo: "owning_partition legacy_smem 0xffffffff = None"
    by (simp add: owning_partition_def legacy_smem_def zero_partition_def SMEM_HOST_COUNT_def)
  have ic: "(3 :: u32) < item_count private_smem" "(3 :: u32) < item_count legacy_smem"
    "item_count (legacy_smem\<lparr>item_count := 2\<rparr>) \<le> (3 :: u32)"
    by (simp_all add: private_smem_def legacy_smem_def)
  have u: "uncached_entry_to_item reserved_uncached_mem 0x1040 = 0x1050"
    "entry_size reserved_uncached_mem 0x1040 = 16"
    "entry_padding_data reserved_uncached_mem 0x1040 = 4"
    by (simp_all add: reserved_uncached_mem_def entry_defs field_defs)
  have c: "cached_entry_to_item reserved_cached_mem 0x1fc0 = 0x1f80"
    "entry_size reserved_cached_mem 0x1fc0 = 64"
    "entry_padding_data reserved_cached_mem 0x1fc0 = 0"
    by (simp_all add: reserved_cached_mem_def entry_defs field_defs)
  have l: "region_virt_base (regions legacy_smem ! 0) = 0x1000"
    "global_entry_offset legacy_item3_mem (header_toc 0x1000 3) = 0x3000"
    "global_entry_size legacy_item3_mem (header_toc 0x1000 3) = 64"
    by (simp_all add: legacy_smem_def legacy_item3_mem_def field_defs)
  from reserved_ids_alloc_only [OF lt, of private_smem 0 8 reserved_uncached_mem True
      example_part "0x1040"]
    reserved_ids_alloc_only [OF lt, of private_smem 0 8 reserved_cached_mem True
      example_part "0x1fc0" "0x1020"]
    reserved_ids_alloc_only [OF lt, of legacy_smem "0xffffffff" 8 legacy_item3_mem True]
    reserved_ids_alloc_only [OF lt, of "legacy_smem\<lparr>item_count := 2\<rparr>" "0xffffffff" 8
      legacy_item3_mem True]
    reserved_uncached_example reserved_cached_example reserved_legacy_example po lo ic
  show ?thesis by (simp add: u c l)
qed

section \<open>The legacy heap and sizes that wrap\<close>

text \<open>
  Claim C9.  In legacy mode an allocated slot gives \<open>-EEXIST\<close> and an aligned size above
  \<open>available\<close> gives \<open>-ENOMEM\<close>, both without a store.  The aligned size is computed in
  \<open>size_t\<close>, though: for the seven sizes from \<open>2^64 - 7\<close> on it wraps to 0, and the
  allocation below, of \<open>2^64 - 1\<close> bytes with nothing available, succeeds and marks item 50
  allocated with size 0.
\<close>

theorem alloc_global_size_wraps:
  "(case qcom_smem_alloc (Some legacy_smem) 0xffffffff 50 0xffffffffffffffff legacy_full_mem of
      None \<Rightarrow> False
    | Some (r, m') \<Rightarrow> r = Inr () \<and> header_available legacy_full_mem 0x1000 = 0
         \<and> global_entry_allocated m' (header_toc 0x1000 50) = 1
         \<and> global_entry_size m' (header_toc 0x1000 50) = 0)"
  by (simp add: qcom_smem_alloc_def legacy_smem_def legacy_full_mem_def zero_partition_def
        qcom_smem_alloc_global_def SMEM_ITEM_LAST_FIXED_def SMEM_HOST_COUNT_def ALIGN_def Let_def
        field_defs)

section \<open>Validation of partition headers\<close>

lemma partition_header_iff:
  "qcom_smem_partition_header smem entry host0 host1 m = Some header \<longleftrightarrow>
     header = region_aux_base (regions smem ! 0) + ucast (ptable_entry_offset m entry)
     \<and> header \<noteq> 0 \<and> header_matches m header entry host0 host1"
  by (auto simp add: qcom_smem_partition_header_def header_matches_def Let_def not_less)

lemma partition_header_regions:
  "regions smem' = regions smem \<Longrightarrow>
     qcom_smem_partition_header smem' entry host0 host1 m
       = qcom_smem_partition_header smem entry host0 host1 m"
  by (simp add: qcom_smem_partition_header_def)

lemma enumerate_loop_step:
  "enumerate_partitions_loop smem m local_host pt n i =
     (if i < n then
        (if \<not> entry_for_host m local_host (ptable_entry pt (of_nat i))
           then enumerate_partitions_loop smem m local_host pt n (Suc i)
         else (let entry = ptable_entry pt (of_nat i);
                   host0 = ptable_entry_host0 m entry;
                   host1 = ptable_entry_host1 m entry;
                   remote_host = (if host0 = local_host then host1 else host0)
           in if unat remote_host \<ge> SMEM_HOST_COUNT then Inl EINVAL
              else if part_virt_base (partitions smem ! unat remote_host) \<noteq> 0 then Inl EINVAL
              else (case qcom_smem_partition_header smem entry host0 host1 m of
                 None \<Rightarrow> Inl EINVAL
               | Some header \<Rightarrow>
                   enumerate_partitions_loop
                     (smem\<lparr>partitions := (partitions smem)[unat remote_host :=
                        \<lparr>part_virt_base = header,
                         part_phys_base = region_aux_base (regions smem ! 0)
                           + ucast (ptable_entry_offset m entry),
                         part_cacheline = ucast (ptable_entry_cacheline m entry),
                         part_size = ucast (ptable_entry_size m entry)\<rparr>]\<rparr>)
                     m local_host pt n (Suc i))))
      else Inr smem)"
  by (subst enumerate_partitions_loop.simps) (simp add: Let_def entry_for_host_def)

lemma enumerate_loop_done:
  "\<not> i < n \<Longrightarrow> enumerate_partitions_loop smem m local_host pt n i = Inr smem"
  by (subst enumerate_loop_step) simp

lemma enumerate_loop_Inr_cases:
  assumes "enumerate_partitions_loop smem m local_host pt n i = Inr smem'" and "i < n"
  obtains
    (skip) "\<not> entry_for_host m local_host (ptable_entry pt (of_nat i))"
      and "enumerate_partitions_loop smem m local_host pt n (Suc i) = Inr smem'"
  | (accept) header smem2 where "entry_for_host m local_host (ptable_entry pt (of_nat i))"
      and "qcom_smem_partition_header smem (ptable_entry pt (of_nat i))
             (ptable_entry_host0 m (ptable_entry pt (of_nat i)))
             (ptable_entry_host1 m (ptable_entry pt (of_nat i))) m = Some header"
      and "regions smem2 = regions smem" and "global_partition smem2 = global_partition smem"
      and "item_count smem2 = item_count smem" and "ptable smem2 = ptable smem"
      and "enumerate_partitions_loop smem2 m local_host pt n (Suc i) = Inr smem'"
proof (cases "entry_for_host m local_host (ptable_entry pt (of_nat i))")
  case False
  with assms have "enumerate_partitions_loop smem m local_host pt n (Suc i) = Inr smem'"
    by (subst (asm) enumerate_loop_step) simp
  with False show ?thesis by (rule skip)
next
  case True
  let ?entry = "ptable_entry pt (of_nat i)"
  let ?h0 = "ptable_entry_host0 m ?entry"
  let ?h1 = "ptable_entry_host1 m ?entry"
  let ?r = "if ?h0 = local_host then ?h1 else ?h0"
  from assms True have c: "\<not> unat ?r \<ge> SMEM_HOST_COUNT"
      "\<not> part_virt_base (partitions smem ! unat ?r) \<noteq> 0"
    by (subst (asm) enumerate_loop_step, simp add: Let_def split: if_splits)+
  from assms True c obtain header where
    h: "qcom_smem_partition_header smem ?entry ?h0 ?h1 m = Some header"
    by (subst (asm) enumerate_loop_step)
      (cases "qcom_smem_partition_header smem ?entry ?h0 ?h1 m", simp_all add: Let_def)
  let ?smem2 = "smem\<lparr>partitions := (partitions smem)[unat ?r :=
                        \<lparr>part_virt_base = header,
                         part_phys_base = region_aux_base (regions smem ! 0)
                           + ucast (ptable_entry_offset m ?entry),
                         part_cacheline = ucast (ptable_entry_cacheline m ?entry),
                         part_size = ucast (ptable_entry_size m ?entry)\<rparr>]\<rparr>"
  from assms True c h have l: "enumerate_partitions_loop ?smem2 m local_host pt n (Suc i) = Inr smem'"
    by (subst (asm) enumerate_loop_step) (simp add: Let_def)
  show ?thesis
    by (rule accept [OF True h _ _ _ _ l]) simp_all
qed

lemma enumerate_loop_keeps:
  "enumerate_partitions_loop smem m local_host pt n i = Inr smem' \<Longrightarrow>
     global_partition smem' = global_partition smem \<and> item_count smem' = item_count smem
     \<and> regions smem' = regions smem \<and> ptable smem' = ptable smem"
proof (induction k \<equiv> "n - i" arbitrary: i smem)
  case 0
  then have "\<not> i < n" by simp
  with "0.prems" show ?case by (simp add: enumerate_loop_done)
next
  case (Suc k)
  then have lt: "i < n" and k: "k = n - Suc i" by simp_all
  from Suc.prems lt show ?case
  proof (cases rule: enumerate_loop_Inr_cases)
    case skip
    from Suc.hyps(1) [OF k skip(2)] show ?thesis .
  next
    case (accept header smem2)
    from Suc.hyps(1) [OF k accept(7)] accept(3-6) show ?thesis by simp
  qed
qed

lemma enumerate_loop_validates:
  "enumerate_partitions_loop smem m local_host pt n i = Inr smem' \<Longrightarrow> i \<le> j \<Longrightarrow> j < n
     \<Longrightarrow> entry_for_host m local_host (ptable_entry pt (of_nat j))
     \<Longrightarrow> qcom_smem_partition_header smem (ptable_entry pt (of_nat j))
           (ptable_entry_host0 m (ptable_entry pt (of_nat j)))
           (ptable_entry_host1 m (ptable_entry pt (of_nat j))) m \<noteq> None"
proof (induction k \<equiv> "n - i" arbitrary: i smem)
  case 0
  then show ?case by simp
next
  case (Suc k)
  then have lt: "i < n" and k: "k = n - Suc i" by simp_all
  from Suc.prems(1) lt show ?case
  proof (cases rule: enumerate_loop_Inr_cases)
    case skip
    with Suc.prems(4) have "j \<noteq> i" by auto
    with Suc.prems(2) have "Suc i \<le> j" by simp
    from Suc.hyps(1) [OF k skip(2) this Suc.prems(3) Suc.prems(4)] show ?thesis .
  next
    case (accept header smem2)
    show ?thesis
    proof (cases "j = i")
      case True
      with accept(2) show ?thesis by simp
    next
      case False
      with Suc.prems(2) have "Suc i \<le> j" by simp
      from Suc.hyps(1) [OF k accept(7) this Suc.prems(3) Suc.prems(4)]
      show ?thesis by (simp add: partition_header_regions [OF accept(3)])
    qed
  qed
qed

lemma enumerate_loop_error:
  "enumerate_partitions_loop smem m local_host pt n i = Inl err \<Longrightarrow> err = EINVAL"
proof (induction k \<equiv> "n - i" arbitrary: i smem)
  case 0
  then have "\<not> i < n" by simp
  with "0.prems" show ?case by (simp add: enumerate_loop_done)
next
  case (Suc k)
  then have lt: "i < n" and k: "k = n - Suc i" by simp_all
  note IH = Suc.hyps(1) [OF k]
  show ?case
  proof (cases "entry_for_host m local_host (ptable_entry pt (of_nat i))")
    case False
    with Suc.prems lt have "enumerate_partitions_loop smem m local_host pt n (Suc i) = Inl err"
      by (subst (asm) enumerate_loop_step) simp
    then show ?thesis by (rule IH)
  next
    case True
    let ?entry = "ptable_entry pt (of_nat i)"
    let ?h0 = "ptable_entry_host0 m ?entry"
    let ?h1 = "ptable_entry_host1 m ?entry"
    show ?thesis
    proof (cases "qcom_smem_partition_header smem ?entry ?h0 ?h1 m")
      case None
      with Suc.prems lt True show ?thesis
        by (subst (asm) enumerate_loop_step) (simp add: Let_def split: if_splits)
    next
      case (Some header)
      with Suc.prems lt True have
        "err = EINVAL \<or> (\<exists>smem2. enumerate_partitions_loop smem2 m local_host pt n (Suc i) = Inl err)"
        by (subst (asm) enumerate_loop_step) (auto simp add: Let_def split: if_splits)
      then show ?thesis using IH by blast
    qed
  qed
qed

lemma find_global_entry_step:
  "find_global_entry m pt n i =
     (if i < n then
        if is_global_entry m (ptable_entry pt (of_nat i)) then Some (ptable_entry pt (of_nat i))
        else find_global_entry m pt n (Suc i)
      else None)"
  by (subst find_global_entry.simps) (simp add: Let_def is_global_entry_def)

lemma find_global_entry_found:
  "find_global_entry m pt n i = Some entry \<Longrightarrow> is_global_entry m entry"
proof (induction k \<equiv> "n - i" arbitrary: i)
  case 0
  then show ?case by (subst (asm) find_global_entry_step) simp
next
  case (Suc k)
  then have lt: "i < n" and k: "k = n - Suc i" by simp_all
  show ?case
  proof (cases "is_global_entry m (ptable_entry pt (of_nat i))")
    case True
    with Suc.prems lt show ?thesis by (subst (asm) find_global_entry_step) simp
  next
    case False
    with Suc.prems lt have "find_global_entry m pt n (Suc i) = Some entry"
      by (subst (asm) find_global_entry_step) simp
    then show ?thesis by (rule Suc.hyps(1) [OF k])
  qed
qed

lemma set_global_partition_Inr:
  assumes "qcom_smem_set_global_partition smem m = Inr smem'"
  obtains pt entry header where "qcom_smem_get_ptable smem m = Inr pt"
    and "find_global_entry m pt (unat (ptable_num_entries m pt)) 0 = Some entry"
    and "qcom_smem_partition_header smem entry SMEM_GLOBAL_HOST SMEM_GLOBAL_HOST m = Some header"
    and "part_virt_base (global_partition smem') = header"
    and "part_size (global_partition smem') = ucast (ptable_entry_size m entry)"
    and "regions smem' = regions smem" and "ptable smem' = ptable smem"
    and "partitions smem' = partitions smem"
proof -
  from assms obtain pt where pt: "qcom_smem_get_ptable smem m = Inr pt"
    by (cases "qcom_smem_get_ptable smem m")
      (simp_all add: qcom_smem_set_global_partition_def split: if_splits)
  from assms pt obtain entry where
    e: "find_global_entry m pt (unat (ptable_num_entries m pt)) 0 = Some entry"
    by (cases "find_global_entry m pt (unat (ptable_num_entries m pt)) 0")
      (simp_all add: qcom_smem_set_global_partition_def split: if_splits)
  from assms pt e obtain header where
    h: "qcom_smem_partition_header smem entry SMEM_GLOBAL_HOST SMEM_GLOBAL_HOST m = Some header"
    by (cases "qcom_smem_partition_header smem entry SMEM_GLOBAL_HOST SMEM_GLOBAL_HOST m")
      (simp_all add: qcom_smem_set_global_partition_def split: if_splits)
  from assms pt e h have
    s: "smem' = smem\<lparr>global_partition :=
                      \<lparr>part_virt_base = header,
                       part_phys_base =
                         region_aux_base (regions smem ! 0) + ucast (ptable_entry_offset m entry),
                       part_cacheline = ucast (ptable_entry_cacheline m entry),
                       part_size = ucast (ptable_entry_size m entry)\<rparr>\<rparr>"
    by (simp add: qcom_smem_set_global_partition_def split: if_splits)
  show ?thesis by (rule that [OF pt e h]) (simp_all add: s)
qed

text \<open>
  Claim C8.  \<open>qcom_smem_partition_header\<close> returns the header of a table entry exactly when
  the header is not the null pointer, carries the partition magic, names the two requested
  hosts, stores the size of its entry and has an uncached cursor that does not exceed that
  size.  A header it rejects is an error of the operation that looked at it, not an absent
  partition: \<open>qcom_smem_set_global_partition\<close> returns \<open>-EINVAL\<close> when the global entry it
  found has such a header, and \<open>qcom_smem_enumerate_partitions\<close> returns \<open>-EINVAL\<close> when
  any entry in use for the local host has one.
\<close>

theorem partition_validation:
  "(qcom_smem_partition_header smem entry host0 host1 m = Some header \<longleftrightarrow>
      header = region_aux_base (regions smem ! 0) + ucast (ptable_entry_offset m entry)
      \<and> header \<noteq> 0 \<and> header_matches m header entry host0 host1)
   \<and> (part_virt_base (global_partition smem) = 0 \<and> qcom_smem_get_ptable smem m = Inr pt
       \<and> find_global_entry m pt (unat (ptable_num_entries m pt)) 0 = Some entry
       \<and> qcom_smem_partition_header smem entry SMEM_GLOBAL_HOST SMEM_GLOBAL_HOST m = None
      \<longrightarrow> qcom_smem_set_global_partition smem m = Inl EINVAL)
   \<and> (qcom_smem_get_ptable smem m = Inr pt \<and> j < unat (ptable_num_entries m pt)
       \<and> entry_for_host m local_host (ptable_entry pt (of_nat j))
       \<and> qcom_smem_partition_header smem (ptable_entry pt (of_nat j))
            (ptable_entry_host0 m (ptable_entry pt (of_nat j)))
            (ptable_entry_host1 m (ptable_entry pt (of_nat j))) m = None
      \<longrightarrow> qcom_smem_enumerate_partitions smem local_host m = Inl EINVAL)"
proof (intro conjI impI)
  show "qcom_smem_partition_header smem entry host0 host1 m = Some header \<longleftrightarrow>
      header = region_aux_base (regions smem ! 0) + ucast (ptable_entry_offset m entry)
      \<and> header \<noteq> 0 \<and> header_matches m header entry host0 host1"
    by (rule partition_header_iff)
next
  assume "part_virt_base (global_partition smem) = 0 \<and> qcom_smem_get_ptable smem m = Inr pt
       \<and> find_global_entry m pt (unat (ptable_num_entries m pt)) 0 = Some entry
       \<and> qcom_smem_partition_header smem entry SMEM_GLOBAL_HOST SMEM_GLOBAL_HOST m = None"
  then show "qcom_smem_set_global_partition smem m = Inl EINVAL"
    by (simp add: qcom_smem_set_global_partition_def)
next
  assume a: "qcom_smem_get_ptable smem m = Inr pt \<and> j < unat (ptable_num_entries m pt)
       \<and> entry_for_host m local_host (ptable_entry pt (of_nat j))
       \<and> qcom_smem_partition_header smem (ptable_entry pt (of_nat j))
            (ptable_entry_host0 m (ptable_entry pt (of_nat j)))
            (ptable_entry_host1 m (ptable_entry pt (of_nat j))) m = None"
  let ?l = "enumerate_partitions_loop smem m local_host pt (unat (ptable_num_entries m pt)) 0"
  have "?l = Inl EINVAL"
  proof (cases ?l)
    case (Inl err)
    then show ?thesis using enumerate_loop_error by blast
  next
    case (Inr smem')
    from enumerate_loop_validates [OF Inr, of j] a show ?thesis by simp
  qed
  with a show "qcom_smem_enumerate_partitions smem local_host m = Inl EINVAL"
    by (simp add: qcom_smem_enumerate_partitions_def)
qed

lemma table_header_accepted: "qcom_smem_partition_header table_smem 0x1f020 SMEM_GLOBAL_HOST SMEM_GLOBAL_HOST parts_mem
         = Some 0x12000"
  by (simp add: qcom_smem_partition_header_def table_smem_def parts_mem_def table_mem_def
        with_partition_header_def Let_def table_defs)

lemma table_header_rejected: "qcom_smem_partition_header table_smem 0x1f020 SMEM_GLOBAL_HOST SMEM_GLOBAL_HOST table_mem
         = None"
  by (simp add: qcom_smem_partition_header_def table_smem_def table_mem_def
        Let_def table_defs)

lemma table_ptable: "qcom_smem_get_ptable table_smem table_mem = Inr 0x1f000"
  by (simp add: qcom_smem_get_ptable_def table_smem_def table_mem_def table_defs)

lemma table_global_entry: "find_global_entry table_mem 0x1f000 (unat (ptable_num_entries table_mem 0x1f000)) 0
     = Some 0x1f020"
  by (simp add: find_global_entry.simps table_mem_def Let_def table_defs)

lemma table_apps_entry: "entry_for_host table_mem SMEM_HOST_APPS 0x1f050"
  by (simp add: entry_for_host_def table_mem_def table_defs)

lemma table_apps_header_rejected: "qcom_smem_partition_header table_smem 0x1f050 0 1 table_mem = None"
  by (simp add: qcom_smem_partition_header_def table_smem_def table_mem_def
        Let_def table_defs)

theorem partition_validation_witness:
  "qcom_smem_partition_header table_smem 0x1f020 SMEM_GLOBAL_HOST SMEM_GLOBAL_HOST parts_mem
      = Some 0x12000
   \<and> header_matches parts_mem 0x12000 0x1f020 SMEM_GLOBAL_HOST SMEM_GLOBAL_HOST
   \<and> find_global_entry table_mem 0x1f000 (unat (ptable_num_entries table_mem 0x1f000)) 0
      = Some 0x1f020
   \<and> qcom_smem_partition_header table_smem 0x1f020 SMEM_GLOBAL_HOST SMEM_GLOBAL_HOST table_mem
      = None
   \<and> qcom_smem_set_global_partition table_smem table_mem = Inl EINVAL
   \<and> entry_for_host table_mem SMEM_HOST_APPS 0x1f050
   \<and> qcom_smem_enumerate_partitions table_smem SMEM_HOST_APPS table_mem = Inl EINVAL"
proof -
  have e1: "ptable_entry 0x1f000 (of_nat 1) = 0x1f050"
    by (simp add: ptable_entry_def)
  have n: "1 < unat (ptable_num_entries table_mem 0x1f000)"
    by (simp add: table_mem_def table_defs)
  have h: "ptable_entry_host0 table_mem 0x1f050 = 0" "ptable_entry_host1 table_mem 0x1f050 = 1"
    by (simp_all add: table_mem_def table_defs)
  have g: "part_virt_base (global_partition table_smem) = 0"
    by (simp add: table_smem_def zero_partition_def)
  from partition_validation [of table_smem "0x1f020" SMEM_GLOBAL_HOST SMEM_GLOBAL_HOST parts_mem
      "0x12000"]
    partition_validation [of table_smem "0x1f020" _ _ table_mem _ "0x1f000" 1 SMEM_HOST_APPS]
    table_header_accepted table_header_rejected table_ptable table_global_entry
    table_apps_entry table_apps_header_rejected e1 n h g
  show ?thesis by simp
qed

section \<open>The version switch\<close>

lemma init_before_switch:
  "\<not> init_reaches_switch env m \<Longrightarrow> \<exists>err. qcom_smem_init env old m = (Inl err, old)"
  by (auto simp add: init_reaches_switch_def qcom_smem_init_def qcom_smem_map_toc_def
        smem_kzalloc_def init_table_def Let_def)

lemma init_at_switch:
  "init_reaches_switch env m \<Longrightarrow>
     qcom_smem_init env old m =
       (case init_select_mode (init_handle env)
               (header_version m (mem_addr env) SMEM_MASTER_SBL_VERSION_INDEX)
               (header_available m (mem_addr env) + header_free_offset m (mem_addr env)) m of
          Inl err \<Rightarrow> (Inl err, old)
        | Inr smem3 \<Rightarrow>
            (case qcom_smem_enumerate_partitions smem3 SMEM_HOST_APPS m of
               Inl err \<Rightarrow> (if err \<noteq> ENOENT then (Inl err, old) else (Inr (), Some smem3))
             | Inr smem4 \<Rightarrow> (Inr (), Some smem4)))"
  by (simp add: init_reaches_switch_def qcom_smem_init_def qcom_smem_map_toc_def
        smem_kzalloc_def init_table_def init_handle_def qcom_smem_get_sbl_version_def Let_def)

lemma enumerate_partitions_keeps:
  "qcom_smem_enumerate_partitions smem local_host m = Inr smem' \<Longrightarrow>
     global_partition smem' = global_partition smem \<and> item_count smem' = item_count smem
     \<and> regions smem' = regions smem \<and> ptable smem' = ptable smem"
  by (cases "qcom_smem_get_ptable smem m")
    (simp_all add: qcom_smem_enumerate_partitions_def enumerate_loop_keeps)

lemma init_success:
  assumes "qcom_smem_init env old m = (Inr (), new)"
  obtains smem3 smem where "init_reaches_switch env m"
    and "init_select_mode (init_handle env)
               (header_version m (mem_addr env) SMEM_MASTER_SBL_VERSION_INDEX)
               (header_available m (mem_addr env) + header_free_offset m (mem_addr env)) m
          = Inr smem3"
    and "new = Some smem" and "global_partition smem = global_partition smem3"
    and "item_count smem = item_count smem3" and "regions smem = regions smem3"
proof -
  let ?sel = "init_select_mode (init_handle env)
               (header_version m (mem_addr env) SMEM_MASTER_SBL_VERSION_INDEX)
               (header_available m (mem_addr env) + header_free_offset m (mem_addr env)) m"
  from assms init_before_switch [of env m old] have r: "init_reaches_switch env m"
    by auto
  note u = assms [unfolded init_at_switch [OF r]]
  from u obtain smem3 where s: "?sel = Inr smem3"
    by (cases ?sel) simp_all
  show ?thesis
  proof (cases "qcom_smem_enumerate_partitions smem3 SMEM_HOST_APPS m")
    case (Inl err)
    with u s have "new = Some smem3" by (simp split: if_splits)
    then show ?thesis using that [OF r s] by simp
  next
    case (Inr smem4)
    with u s have "new = Some smem4" by simp
    then show ?thesis using that [OF r s] enumerate_partitions_keeps [OF Inr] by simp
  qed
qed

lemma init_handle_fields:
  "part_virt_base (global_partition (init_handle env)) = 0"
  "region_aux_base (regions (init_handle env) ! 0) = mem_addr env"
  "ptable (init_handle env) = init_table env"
  by (simp_all add: init_handle_def)

lemma get_ptable_Inr: "qcom_smem_get_ptable smem m = Inr pt \<Longrightarrow> pt = ptable smem"
  by (simp add: qcom_smem_get_ptable_def split: if_splits)

text \<open>
  Claim C7.  Once \<open>qcom_smem_init\<close> has reached its switch on the major number of the
  boot loader's version word, a major number other than 12 and 11 makes it return \<open>-EINVAL\<close>
  and leave the handle unset, so a successful initialisation has seen 12 or 11.  With 12 it
  succeeds only with a global partition: the table has an entry in use for the pair
  (\<open>SMEM_GLOBAL_HOST\<close>, \<open>SMEM_GLOBAL_HOST\<close>), and the global partition of the new handle is
  the header of that entry, which is not null and has passed the validation against it.  With 11
  the new handle has no global partition, \<open>SMEM_ITEM_COUNT\<close> (512) items and region 0 mapped
  with the size the header reports.
\<close>

theorem init_mode_selection:
  "(init_reaches_switch env m \<and> init_major env m \<noteq> SMEM_GLOBAL_PART_VERSION
      \<and> init_major env m \<noteq> SMEM_GLOBAL_HEAP_VERSION
     \<longrightarrow> qcom_smem_init env old m = (Inl EINVAL, old))
   \<and> (qcom_smem_init env old m = (Inr (), new)
     \<longrightarrow> init_major env m = SMEM_GLOBAL_PART_VERSION
         \<or> init_major env m = SMEM_GLOBAL_HEAP_VERSION)
   \<and> (init_major env m = SMEM_GLOBAL_PART_VERSION \<and> qcom_smem_init env old m = (Inr (), new)
     \<longrightarrow> (\<exists>smem entry. new = Some smem
           \<and> find_global_entry m (init_table env)
                (unat (ptable_num_entries m (init_table env))) 0 = Some entry
           \<and> is_global_entry m entry
           \<and> part_virt_base (global_partition smem)
               = mem_addr env + ucast (ptable_entry_offset m entry)
           \<and> part_virt_base (global_partition smem) \<noteq> 0
           \<and> header_matches m (part_virt_base (global_partition smem)) entry
               SMEM_GLOBAL_HOST SMEM_GLOBAL_HOST))
   \<and> (init_major env m = SMEM_GLOBAL_HEAP_VERSION \<and> qcom_smem_init env old m = (Inr (), new)
     \<longrightarrow> (\<exists>smem. new = Some smem \<and> item_count smem = SMEM_ITEM_COUNT
           \<and> part_virt_base (global_partition smem) = 0
           \<and> region_virt_base (regions smem ! 0) = mem_addr env
           \<and> region_size (regions smem ! 0)
               = ucast (header_available m (mem_addr env) + header_free_offset m (mem_addr env))))"
proof (intro conjI impI)
  assume "init_reaches_switch env m \<and> init_major env m \<noteq> SMEM_GLOBAL_PART_VERSION
      \<and> init_major env m \<noteq> SMEM_GLOBAL_HEAP_VERSION"
  then show "qcom_smem_init env old m = (Inl EINVAL, old)"
    by (simp add: init_at_switch init_select_mode_def init_major_def)
next
  assume a: "qcom_smem_init env old m = (Inr (), new)"
  then show "init_major env m = SMEM_GLOBAL_PART_VERSION
         \<or> init_major env m = SMEM_GLOBAL_HEAP_VERSION"
  proof (cases rule: init_success)
    case (1 smem3 smem)
    from 1(2) show ?thesis
      by (simp add: init_select_mode_def init_major_def split: if_splits)
  qed
next
  assume "init_major env m = SMEM_GLOBAL_PART_VERSION
    \<and> qcom_smem_init env old m = (Inr (), new)"
  then have v: "init_major env m = SMEM_GLOBAL_PART_VERSION"
    and a: "qcom_smem_init env old m = (Inr (), new)" by simp_all
  from a show "\<exists>smem entry. new = Some smem
           \<and> find_global_entry m (init_table env)
                (unat (ptable_num_entries m (init_table env))) 0 = Some entry
           \<and> is_global_entry m entry
           \<and> part_virt_base (global_partition smem)
               = mem_addr env + ucast (ptable_entry_offset m entry)
           \<and> part_virt_base (global_partition smem) \<noteq> 0
           \<and> header_matches m (part_virt_base (global_partition smem)) entry
               SMEM_GLOBAL_HOST SMEM_GLOBAL_HOST"
  proof (cases rule: init_success)
    case (1 smem3 smem)
    from 1(2) v obtain smem' where
      g: "qcom_smem_set_global_partition (init_handle env) m = Inr smem'"
      and s3: "global_partition smem3 = global_partition smem'"
      by (cases "qcom_smem_set_global_partition (init_handle env) m")
        (auto simp add: init_select_mode_def init_major_def)
    from g show ?thesis
    proof (cases rule: set_global_partition_Inr)
      case (1 pt entry header)
      from get_ptable_Inr [OF 1(1)] have pt: "pt = init_table env"
        by (simp add: init_handle_fields)
      from 1(3) have h: "header = mem_addr env + ucast (ptable_entry_offset m entry)"
        "header \<noteq> 0" "header_matches m header entry SMEM_GLOBAL_HOST SMEM_GLOBAL_HOST"
        by (auto simp add: partition_header_iff init_handle_fields)
      from 1(2) have ge: "is_global_entry m entry" by (rule find_global_entry_found)
      from \<open>new = Some smem\<close> \<open>global_partition smem = global_partition smem3\<close> s3 1(2,4) pt h ge
      show ?thesis by simp
    qed
  qed
next
  assume "init_major env m = SMEM_GLOBAL_HEAP_VERSION
    \<and> qcom_smem_init env old m = (Inr (), new)"
  then have v: "init_major env m = SMEM_GLOBAL_HEAP_VERSION"
    and a: "qcom_smem_init env old m = (Inr (), new)" by simp_all
  from a show "\<exists>smem. new = Some smem \<and> item_count smem = SMEM_ITEM_COUNT
           \<and> part_virt_base (global_partition smem) = 0
           \<and> region_virt_base (regions smem ! 0) = mem_addr env
           \<and> region_size (regions smem ! 0)
               = ucast (header_available m (mem_addr env) + header_free_offset m (mem_addr env))"
  proof (cases rule: init_success)
    case (1 smem3 smem)
    from 1(2) v have "smem3 = (qcom_smem_map_global (init_handle env)
        (header_available m (mem_addr env) + header_free_offset m (mem_addr env)))
          \<lparr>item_count := SMEM_ITEM_COUNT\<rparr>"
      by (auto simp add: init_select_mode_def init_major_def SMEM_GLOBAL_PART_VERSION_def
            SMEM_GLOBAL_HEAP_VERSION_def)
    with 1(3-6) show ?thesis
      by (simp add: qcom_smem_map_global_def init_handle_def Let_def)
  qed
qed

lemma boot_v13: "init_reaches_switch boot_env (sbl_header 0xd0000 (\<lambda>_. 0))"
  "init_major boot_env (sbl_header 0xd0000 (\<lambda>_. 0)) = 13"
  by (simp_all add: init_defs table_defs)

lemma boot_v11: "init_reaches_switch boot_env (sbl_header 0xb0000 (\<lambda>_. 0))"
  "init_major boot_env (sbl_header 0xb0000 (\<lambda>_. 0)) = 11"
  by (simp_all add: init_defs table_defs)

lemma boot_v11_init:
  "\<exists>new. qcom_smem_init boot_env None (sbl_header 0xb0000 (\<lambda>_. 0)) = (Inr (), new)"
  by (simp add: init_at_switch boot_v11 init_select_mode_def qcom_smem_enumerate_partitions_def
      qcom_smem_get_ptable_def qcom_smem_map_global_def init_handle_def Let_def init_defs
      table_defs)

lemma boot_handle: "init_handle boot_env = table_smem"
  by (simp add: init_handle_def table_smem_def boot_env_def init_table_def zero_partition_def
      SMEM_HOST_COUNT_def SZ_4K_def)

lemma boot_ptable: "qcom_smem_get_ptable table_smem boot_mem = Inr 0x1f000"
  by (simp add: qcom_smem_get_ptable_def table_smem_def boot_mem_defs table_defs)

lemma boot_num_entries: "unat (ptable_num_entries boot_mem 0x1f000) = 2"
  by (simp add: boot_mem_defs table_defs)

lemma get_ptable_cong:
  "ptable smem' = ptable smem \<Longrightarrow> qcom_smem_get_ptable smem' m = qcom_smem_get_ptable smem m"
  by (simp add: qcom_smem_get_ptable_def)

lemma boot_entries: "ptable_entry 0x1f000 0 = 0x1f020" "ptable_entry 0x1f000 1 = 0x1f050"
   "ptable_entry 0x1f000 2 = 0x1f080"
  by (simp_all add: ptable_entry_def)

lemma boot_entry_fields:
  "ptable_entry_offset boot_mem 0x1f020 = 0x2000" "ptable_entry_size boot_mem 0x1f020 = 0x1000"
  "ptable_entry_host0 boot_mem 0x1f020 = 0xfffe" "ptable_entry_host1 boot_mem 0x1f020 = 0xfffe"
  "ptable_entry_cacheline boot_mem 0x1f020 = 0"
  "ptable_entry_offset boot_mem 0x1f050 = 0x3000" "ptable_entry_size boot_mem 0x1f050 = 0x1000"
  "ptable_entry_host0 boot_mem 0x1f050 = 0" "ptable_entry_host1 boot_mem 0x1f050 = 1"
  "ptable_entry_cacheline boot_mem 0x1f050 = 0"
  by (simp_all add: boot_mem_defs table_defs)

lemma boot_header_fields:
  "magic_at boot_mem 0x12000 = SMEM_PART_MAGIC" "phdr_host0 boot_mem 0x12000 = 0xfffe"
  "phdr_host1 boot_mem 0x12000 = 0xfffe" "phdr_size boot_mem 0x12000 = 0x1000"
  "phdr_offset_free_uncached boot_mem 0x12000 = 0x20"
  "magic_at boot_mem 0x13000 = SMEM_PART_MAGIC" "phdr_host0 boot_mem 0x13000 = 0"
  "phdr_host1 boot_mem 0x13000 = 1" "phdr_size boot_mem 0x13000 = 0x1000"
  "phdr_offset_free_uncached boot_mem 0x13000 = 0x20"
  "magic_at boot_mem 0x1f080 \<noteq> SMEM_INFO_MAGIC"
  by (simp_all add: boot_mem_defs table_defs SMEM_INFO_MAGIC_def)

lemma boot_global_entry:
  "find_global_entry boot_mem 0x1f000 (unat (ptable_num_entries boot_mem 0x1f000)) 0
    = Some 0x1f020"
  by (simp add: boot_num_entries find_global_entry_step [of _ _ _ 0] is_global_entry_def
        boot_entries boot_entry_fields SMEM_GLOBAL_HOST_def)

lemma boot_global_header:
  "qcom_smem_partition_header table_smem 0x1f020 SMEM_GLOBAL_HOST SMEM_GLOBAL_HOST boot_mem
    = Some 0x12000"
  by (simp add: partition_header_iff header_matches_def boot_entry_fields boot_header_fields
        table_smem_def SMEM_GLOBAL_HOST_def)

lemma boot_set_global:
  "qcom_smem_set_global_partition table_smem boot_mem
    = Inr (table_smem\<lparr>global_partition := global_part\<rparr>)"
  by (simp add: qcom_smem_set_global_partition_def boot_ptable boot_global_entry
        boot_global_header boot_entry_fields global_part_def)
    (simp add: table_smem_def zero_partition_def)

lemma boot_item_count:
  "qcom_smem_get_item_count (table_smem\<lparr>global_partition := global_part\<rparr>) boot_mem
    = SMEM_ITEM_COUNT"
proof -
  have "qcom_smem_get_ptable (table_smem\<lparr>global_partition := global_part\<rparr>) boot_mem
      = Inr 0x1f000"
    using boot_ptable
      get_ptable_cong [of "table_smem\<lparr>global_partition := global_part\<rparr>" table_smem boot_mem]
    by simp
  moreover have "(ucast (ptable_num_entries boot_mem 0x1f000) :: u64) = 2"
    by (simp add: boot_mem_defs table_defs)
  ultimately show ?thesis
    by (simp add: qcom_smem_get_item_count_def boot_entries boot_header_fields)
qed

lemma boot_enumerate: "\<exists>smem4. qcom_smem_enumerate_partitions
     (table_smem\<lparr>global_partition := global_part, item_count := SMEM_ITEM_COUNT\<rparr>)
     SMEM_HOST_APPS boot_mem = Inr smem4"
proof -
  let ?s = "table_smem\<lparr>global_partition := global_part, item_count := SMEM_ITEM_COUNT\<rparr>"
  have g: "qcom_smem_get_ptable ?s boot_mem = Inr 0x1f000"
    using boot_ptable get_ptable_cong [of ?s table_smem boot_mem] by simp
  have a: "\<not> entry_for_host boot_mem 0 0x1f020"
    by (simp add: entry_for_host_def boot_entry_fields)
  have b: "entry_for_host boot_mem 0 0x1f050"
    by (simp add: entry_for_host_def boot_entry_fields)
  have c: "qcom_smem_partition_header ?s 0x1f050 0 1 boot_mem = Some 0x13000"
    by (simp add: partition_header_iff header_matches_def boot_entry_fields boot_header_fields
          table_smem_def)
  have d: "part_virt_base (partitions table_smem ! Suc 0) = 0"
    by (simp add: table_smem_def zero_partition_def)
  have "\<exists>smem4. enumerate_partitions_loop ?s boot_mem 0 0x1f000 2 0 = Inr smem4"
    apply (subst enumerate_loop_step)
    apply (simp add: boot_entries a)
    apply (subst enumerate_loop_step)
    apply (simp add: boot_entries b boot_entry_fields c d SMEM_HOST_COUNT_def Let_def)
    apply (subst enumerate_loop_step)
    apply simp
    done
  then show ?thesis
    by (simp add: qcom_smem_enumerate_partitions_def g boot_num_entries SMEM_HOST_APPS_def)
qed

lemma init_v12_succeeds:
  "init_reaches_switch env m \<Longrightarrow> init_major env m = SMEM_GLOBAL_PART_VERSION
    \<Longrightarrow> qcom_smem_set_global_partition (init_handle env) m = Inr smem'
    \<Longrightarrow> qcom_smem_enumerate_partitions
          (smem'\<lparr>item_count := qcom_smem_get_item_count smem' m\<rparr>) SMEM_HOST_APPS m = Inr smem4
    \<Longrightarrow> qcom_smem_init env old m = (Inr (), Some smem4)"
  by (simp add: init_at_switch init_select_mode_def init_major_def)

lemma boot_v12: "init_reaches_switch boot_env boot_mem"
  "init_major boot_env boot_mem = SMEM_GLOBAL_PART_VERSION"
  by (simp_all add: init_defs table_defs boot_mem_defs)

lemma boot_init: "\<exists>smem. qcom_smem_init boot_env None boot_mem = (Inr (), Some smem)"
proof -
  from boot_enumerate obtain smem4 where "qcom_smem_enumerate_partitions
     (table_smem\<lparr>global_partition := global_part, item_count := SMEM_ITEM_COUNT\<rparr>)
     SMEM_HOST_APPS boot_mem = Inr smem4" ..
  with init_v12_succeeds [OF boot_v12,
      of "table_smem\<lparr>global_partition := global_part\<rparr>" smem4 None]
    boot_set_global boot_item_count boot_handle
  show ?thesis by simp
qed

lemma boot_table: "init_table boot_env = 0x1f000" "mem_addr boot_env = 0x10000"
  by (simp_all add: init_table_def boot_env_def SZ_4K_def)

theorem init_mode_selection_witness:
  "qcom_smem_init boot_env None (sbl_header 0xd0000 (\<lambda>_. 0)) = (Inl EINVAL, None)
   \<and> (\<exists>smem. qcom_smem_init boot_env None boot_mem = (Inr (), Some smem)
        \<and> part_virt_base (global_partition smem) = 0x12000
        \<and> header_matches boot_mem 0x12000 0x1f020 SMEM_GLOBAL_HOST SMEM_GLOBAL_HOST)
   \<and> (\<exists>smem. qcom_smem_init boot_env None (sbl_header 0xb0000 (\<lambda>_. 0)) = (Inr (), Some smem)
        \<and> item_count smem = 512 \<and> part_virt_base (global_partition smem) = 0)"
proof (intro conjI)
  from init_mode_selection [of boot_env "sbl_header 0xd0000 (\<lambda>_. 0)" None] boot_v13
  show "qcom_smem_init boot_env None (sbl_header 0xd0000 (\<lambda>_. 0)) = (Inl EINVAL, None)"
    by (simp add: SMEM_GLOBAL_PART_VERSION_def SMEM_GLOBAL_HEAP_VERSION_def)
next
  from boot_init obtain smem where
    i: "qcom_smem_init boot_env None boot_mem = (Inr (), Some smem)" ..
  from init_mode_selection [of boot_env boot_mem None "Some smem"] boot_v12 i
  obtain entry where "find_global_entry boot_mem (init_table boot_env)
                (unat (ptable_num_entries boot_mem (init_table boot_env))) 0 = Some entry"
    and "part_virt_base (global_partition smem)
               = mem_addr boot_env + ucast (ptable_entry_offset boot_mem entry)"
    and "header_matches boot_mem (part_virt_base (global_partition smem)) entry
               SMEM_GLOBAL_HOST SMEM_GLOBAL_HOST"
    by auto
  with boot_global_entry have "part_virt_base (global_partition smem) = 0x12000
        \<and> header_matches boot_mem 0x12000 0x1f020 SMEM_GLOBAL_HOST SMEM_GLOBAL_HOST"
    by (simp add: boot_table boot_entry_fields)
  with i show "\<exists>smem. qcom_smem_init boot_env None boot_mem = (Inr (), Some smem)
        \<and> part_virt_base (global_partition smem) = 0x12000
        \<and> header_matches boot_mem 0x12000 0x1f020 SMEM_GLOBAL_HOST SMEM_GLOBAL_HOST"
    by blast
next
  from boot_v11_init obtain new where
    i: "qcom_smem_init boot_env None (sbl_header 0xb0000 (\<lambda>_. 0)) = (Inr (), new)" ..
  from init_mode_selection [of boot_env "sbl_header 0xb0000 (\<lambda>_. 0)" None new] boot_v11 i
  show "\<exists>smem. qcom_smem_init boot_env None (sbl_header 0xb0000 (\<lambda>_. 0)) = (Inr (), Some smem)
        \<and> item_count smem = 512 \<and> part_virt_base (global_partition smem) = 0"
    by (auto simp add: SMEM_GLOBAL_HEAP_VERSION_def SMEM_ITEM_COUNT_def)
qed

end
